theory Spec2Isabelle
  imports Main "HOL-Library.Word"
begin

chapter \<open>Nexus AI: a shallow embedding of the request glue and the view state\<close>

text \<open>
  The repository is a React front end over a remote generative-media service. The
  functions embedded here are the ones that carry logic: the chat send handler and its
  streaming reassembly (\<^verbatim>\<open>components/Chatbot.tsx\<close>), the persona registry
  (\<^verbatim>\<open>hooks/usePersona\<close>), the handlers of the image generator, the image editor
  and the video view, with the capped histories of the first two, and the service
  functions \<^verbatim>\<open>generateImage\<close>, \<^verbatim>\<open>editImage\<close> and \<^verbatim>\<open>generateVideo\<close>
  (\<^verbatim>\<open>services/geminiService\<close>).

  React state is a record; a handler is a function from the state (and from what the
  remote service answers, given as data) to the next state. Promises that reject and
  statements that throw return \<open>Inl\<close> of the thrown value.
\<close>

section \<open>JavaScript values\<close>

text \<open>
  A JavaScript string is a sequence of UTF-16 code units. \<open>lit\<close> embeds an ASCII
  literal; code units outside ASCII are written as numerals.
\<close>

type_synonym jsstring = "16 word list"

definition lit :: "string \<Rightarrow> jsstring" where
  "lit s = map of_char s"

text \<open>
  \<^verbatim>\<open>String.prototype.trim\<close> removes ECMAScript WhiteSpace and LineTerminator code
  points from both ends: TAB, LF, VT, FF, CR, SPACE, NBSP, U+1680, U+2000..U+200A,
  U+2028, U+2029, U+202F, U+205F, U+3000 and the byte order mark U+FEFF.
\<close>

definition isWhiteSpace :: "16 word \<Rightarrow> bool" where
  "isWhiteSpace c =
     (c = 0x9 \<or> c = 0xA \<or> c = 0xB \<or> c = 0xC \<or> c = 0xD \<or> c = 0x20 \<or> c = 0xA0 \<or>
      c = 0x1680 \<or> (0x2000 \<le> c \<and> c \<le> 0x200A) \<or> c = 0x2028 \<or> c = 0x2029 \<or>
      c = 0x202F \<or> c = 0x205F \<or> c = 0x3000 \<or> c = 0xFEFF)"

definition trim :: "jsstring \<Rightarrow> jsstring" where
  "trim s = rev (dropWhile isWhiteSpace (rev (dropWhile isWhiteSpace s)))"

text \<open>
  Truthiness of a value of type \<^verbatim>\<open>string | null | undefined\<close>: only a non-empty
  string is truthy.
\<close>

fun truthy :: "jsstring option \<Rightarrow> bool" where
  "truthy None = False"
| "truthy (Some s) = (s \<noteq> [])"

text \<open>
  A thrown value: an \<^verbatim>\<open>Error\<close> with its message, or anything else (a value with no
  message that is not an instance of \<^verbatim>\<open>Error\<close>).
\<close>

datatype js_error = Error jsstring | NonError

text \<open>The idiom \<^verbatim>\<open>e.message || fallback\<close> of every catch block.\<close>

fun messageOr :: "js_error \<Rightarrow> jsstring \<Rightarrow> jsstring" where
  "messageOr (Error m) fallback = (if m \<noteq> [] then m else fallback)"
| "messageOr NonError fallback = fallback"

section \<open>Messages (types.ts)\<close>

record InlineData =
  mimeType :: jsstring
  data :: jsstring

text \<open>
  \<^verbatim>\<open>MessagePart\<close> is an interface with two optional fields, so a part may carry
  either, both or neither. The field \<^verbatim>\<open>text\<close> is named \<open>part_text\<close> here.
\<close>

record MessagePart =
  part_text :: "jsstring option"
  inlineData :: "InlineData option"

datatype Role = User | Model

record Message =
  role :: Role
  parts :: "MessagePart list"

definition textPart :: "jsstring \<Rightarrow> MessagePart" where
  "textPart t = \<lparr>part_text = Some t, inlineData = None\<rparr>"

definition inlinePart :: "InlineData \<Rightarrow> MessagePart" where
  "inlinePart d = \<lparr>part_text = None, inlineData = Some d\<rparr>"

section \<open>The chat view (components/Chatbot.tsx)\<close>

text \<open>
  A browser \<^verbatim>\<open>File\<close>: its name, its MIME type, and the base64 payload that the
  \<^verbatim>\<open>FileReader\<close> yields for it (\<open>None\<close> when reading it rejects). The promise
  of \<^verbatim>\<open>fileToGenerativePart\<close> is resolved from \<^verbatim>\<open>onloadend\<close> only; a read that
  ends with a \<^verbatim>\<open>null\<close> result throws inside that callback and leaves the promise
  pending, so that the handler awaiting it never continues. That outcome is not
  represented here: every read either yields a payload or rejects.
\<close>

record File =
  file_name :: jsstring
  file_type :: jsstring
  file_payload :: "jsstring option"

definition fileToGenerativePart :: "File \<Rightarrow> js_error + MessagePart" where
  "fileToGenerativePart file =
     (case file_payload file of
        None \<Rightarrow> Inl NonError
      | Some d \<Rightarrow> Inr (inlinePart \<lparr>mimeType = file_type file, data = d\<rparr>))"

datatype FileKind = Image | Audio

text \<open>
  The component state: the \<^verbatim>\<open>useState\<close> cells of \<^verbatim>\<open>Chatbot\<close> that the send and
  transcription handlers read or write, and the utterance queue of
  \<^verbatim>\<open>window.speechSynthesis\<close>.
\<close>

record ChatState =
  messages :: "Message list"
  input :: jsstring
  attachedFile :: "File option"
  fileType :: "FileKind option"
  loading :: bool
  isTranscribing :: bool
  error :: "jsstring option"
  isTtsEnabled :: bool
  speech :: "jsstring list"

text \<open>
  What the remote chat endpoint does with one \<^verbatim>\<open>sendMessageStream\<close> call: it throws,
  or it returns a stream that yields text chunks in order and then either completes or
  fails. \<open>chatRef\<close> is \<open>None\<close> while no session has been created.
\<close>

record StreamResponse =
  chunks :: "jsstring list"
  failure :: "js_error option"

type_synonym Chat = "MessagePart list \<Rightarrow> js_error + StreamResponse"

text \<open>
  The guard of \<^verbatim>\<open>handleSend\<close>:
  \<^verbatim>\<open>if ((!input.trim() && !attachedFile) || loading) return;\<close>
\<close>

definition sendBlocked :: "ChatState \<Rightarrow> bool" where
  "sendBlocked s = ((trim (input s) = [] \<and> attachedFile s = None) \<or> loading s)"

text \<open>
  The parts of the user message: the part of the attached file when there is one
  (processing it may reject), then the text when the trimmed input is not empty. The
  text part carries the input as typed, not trimmed.
\<close>

definition buildUserParts :: "ChatState \<Rightarrow> js_error + MessagePart list" where
  "buildUserParts s =
     (case (case attachedFile s of
              None \<Rightarrow> Inr []
            | Some file \<Rightarrow>
                (case fileToGenerativePart file of
                   Inl e \<Rightarrow> Inl e
                 | Inr filePart \<Rightarrow> Inr [filePart])) of
        Inl e \<Rightarrow> Inl e
      | Inr userParts \<Rightarrow>
          Inr (if trim (input s) \<noteq> [] then userParts @ [textPart (input s)] else userParts))"

text \<open>
  The updater passed to \<^verbatim>\<open>setMessages\<close> for one chunk: copy the array; when its last
  element exists and has role \<^verbatim>\<open>model\<close>, replace it by a new message whose single
  part is the text of its first part (\<^verbatim>\<open>parts[0]?.text ?? ''\<close>) followed by the chunk.
\<close>

definition appendChunk :: "jsstring \<Rightarrow> Message list \<Rightarrow> Message list" where
  "appendChunk chunkText currentMessages =
     (if currentMessages = [] then currentMessages
      else
        let lastMessageIndex = length currentMessages - 1;
            lastMessage = currentMessages ! lastMessageIndex
        in if role lastMessage = Model then
             let existingText =
                   (case parts lastMessage of
                      [] \<Rightarrow> []
                    | p # _ \<Rightarrow> (case part_text p of None \<Rightarrow> [] | Some t \<Rightarrow> t));
                 updatedText = existingText @ chunkText
             in currentMessages[lastMessageIndex := lastMessage\<lparr>parts := [textPart updatedText]\<rparr>]
           else currentMessages)"

text \<open>The \<^verbatim>\<open>for await\<close> loop: the state after each chunk, in order.\<close>

fun streamStates :: "jsstring list \<Rightarrow> ChatState \<Rightarrow> ChatState list" where
  "streamStates [] s = []"
| "streamStates (chunkText # rest) s =
     (let s' = s\<lparr>messages := appendChunk chunkText (messages s)\<rparr>
      in s' # streamStates rest s')"

definition openStream :: "Chat option \<Rightarrow> MessagePart list \<Rightarrow> js_error + StreamResponse" where
  "openStream chatRef userParts =
     (case chatRef of
        None \<Rightarrow> Inl (Error (lit ''Chat not initialized.''))
      | Some chat \<Rightarrow> chat userParts)"

text \<open>The catch block followed by the finally block.\<close>

definition failSend :: "js_error \<Rightarrow> ChatState \<Rightarrow> ChatState" where
  "failSend e s =
     s\<lparr>error := Some (messageOr e (lit ''An error occurred while getting a response.'')),
       messages := butlast (messages s),
       loading := False\<rparr>"

text \<open>The end of the try block (text to speech) followed by the finally block.\<close>

definition finishSend :: "jsstring \<Rightarrow> ChatState \<Rightarrow> ChatState" where
  "finishSend fullResponse s =
     s\<lparr>speech := (if isTtsEnabled s \<and> fullResponse \<noteq> [] then speech s @ [fullResponse]
                  else speech s),
       loading := False\<rparr>"

text \<open>
  How the loop is left once every chunk has been consumed: the stream failed (catch,
  finally) or completed (the rest of the try block, finally). \<^verbatim>\<open>fullResponse\<close> is
  the concatenation of the chunks.
\<close>

definition endStream :: "StreamResponse \<Rightarrow> ChatState \<Rightarrow> ChatState" where
  "endStream stream sn =
     (case failure stream of
        Some e \<Rightarrow> failSend e sn
      | None \<Rightarrow> finishSend (concat (chunks stream)) sn)"

definition emptyModelMessage :: Message where
  "emptyModelMessage = \<lparr>role = Model, parts = [textPart []]\<rparr>"

text \<open>The updates of the handler before the stream is consumed, in source order.\<close>

definition beginSend :: "ChatState \<Rightarrow> ChatState" where
  \<comment> \<open>\<^verbatim>\<open>setLoading(true); setError(null); window.speechSynthesis.cancel();\<close>\<close>
  "beginSend s = s\<lparr>loading := True, error := None, speech := []\<rparr>"

definition failAttachment :: "ChatState \<Rightarrow> ChatState" where
  \<comment> \<open>the catch block around \<^verbatim>\<open>fileToGenerativePart\<close>\<close>
  "failAttachment s =
     s\<lparr>error := Some (lit ''Failed to process the attached file.''), loading := False\<rparr>"

definition appendUserMessage :: "MessagePart list \<Rightarrow> ChatState \<Rightarrow> ChatState" where
  \<comment> \<open>\<^verbatim>\<open>setMessages(prev => [...prev, userMessage]); setInput(''); setAttachedFile(null); setFileType(null);\<close>\<close>
  "appendUserMessage userParts s =
     s\<lparr>messages := messages s @ [\<lparr>role = User, parts = userParts\<rparr>],
       input := [], attachedFile := None, fileType := None\<rparr>"

definition appendModelMessage :: "ChatState \<Rightarrow> ChatState" where
  \<comment> \<open>\<^verbatim>\<open>setMessages(prev => [...prev, { role: 'model', parts: [{ text: '' }] }]);\<close>\<close>
  "appendModelMessage s = s\<lparr>messages := messages s @ [emptyModelMessage]\<rparr>"

text \<open>
  \<^verbatim>\<open>handleSend\<close>: the successive states of the component as the handler's updates are
  applied, in order; the empty list when the handler returns at its guard. The states
  are: after \<^verbatim>\<open>setLoading(true)\<close>; after the user message is appended and the input
  cleared; after the empty model message is appended; after each chunk; after the
  handler's last update.
\<close>

definition handleSend :: "Chat option \<Rightarrow> ChatState \<Rightarrow> ChatState list" where
  "handleSend chatRef s =
     (if sendBlocked s then []
      else
        let s1 = beginSend s
        in case buildUserParts s of
             Inl e \<Rightarrow> [s1, failAttachment s1]
           | Inr userParts \<Rightarrow>
               let s2 = appendUserMessage userParts s1
               in case openStream chatRef userParts of
                    Inl e \<Rightarrow> [s1, s2, failSend e s2]
                  | Inr stream \<Rightarrow>
                      let s3 = appendModelMessage s2;
                          streamed = streamStates (chunks stream) s3;
                          sn = last (s3 # streamed)
                      in s1 # s2 # s3 # (streamed @ [endStream stream sn]))"

text \<open>The state the component is left in once the handler has run.\<close>

definition afterSend :: "Chat option \<Rightarrow> ChatState \<Rightarrow> ChatState" where
  "afterSend chatRef s = last (s # handleSend chatRef s)"

subsection \<open>The earlier version of the send handler\<close>

text \<open>
  The repository also holds an earlier version of the component. Its handler has the
  same guard, builds the same parts and has the same catch and finally blocks; it has
  no speech output and no \<^verbatim>\<open>fileType\<close> cell, and its loop accumulates the response
  in \<^verbatim>\<open>modelResponse\<close> and overwrites the last message with it:
  \<^verbatim>\<open>newMessages[newMessages.length - 1] = { role: 'model', parts: [{ text: modelResponse }] }\<close>.
  The cells it does not have are left as they are.
\<close>

definition legacyAppendChunk :: "jsstring \<Rightarrow> Message list \<Rightarrow> Message list" where
  "legacyAppendChunk modelResponse prev =
     (if prev = [] then prev
      else prev[length prev - 1 := \<lparr>role = Model, parts = [textPart modelResponse]\<rparr>])"

fun legacyStreamStates :: "jsstring \<Rightarrow> jsstring list \<Rightarrow> ChatState \<Rightarrow> ChatState list" where
  "legacyStreamStates modelResponse [] s = []"
| "legacyStreamStates modelResponse (chunkText # rest) s =
     (let modelResponse' = modelResponse @ chunkText;
          s' = s\<lparr>messages := legacyAppendChunk modelResponse' (messages s)\<rparr>
      in s' # legacyStreamStates modelResponse' rest s')"

definition legacyEndStream :: "StreamResponse \<Rightarrow> ChatState \<Rightarrow> ChatState" where
  "legacyEndStream stream sn =
     (case failure stream of
        Some e \<Rightarrow> failSend e sn
      | None \<Rightarrow> sn\<lparr>loading := False\<rparr>)"

definition legacyHandleSend :: "Chat option \<Rightarrow> ChatState \<Rightarrow> ChatState list" where
  "legacyHandleSend chatRef s =
     (if sendBlocked s then []
      else
        let s1 = s\<lparr>loading := True, error := None\<rparr>
        in case buildUserParts s of
             Inl e \<Rightarrow> [s1, failAttachment s1]
           | Inr userParts \<Rightarrow>
               let s2 = s1\<lparr>messages := messages s1 @ [\<lparr>role = User, parts = userParts\<rparr>],
                           input := [], attachedFile := None\<rparr>
               in case openStream chatRef userParts of
                    Inl e \<Rightarrow> [s1, s2, failSend e s2]
                  | Inr stream \<Rightarrow>
                      let s3 = appendModelMessage s2;
                          streamed = legacyStreamStates [] (chunks stream) s3;
                          sn = last (s3 # streamed)
                      in s1 # s2 # s3 # (streamed @ [legacyEndStream stream sn]))"

subsection \<open>Audio transcription\<close>

text \<open>
  \<^verbatim>\<open>transcribeAudio\<close>: one non-streamed \<^verbatim>\<open>generateContent\<close> request; its text answer
  is merged into the input field by \<^verbatim>\<open>(prev ? prev + ' ' + transcription : transcription).trim()\<close>.
  The remote call is a function from the request parts to what it throws or to the
  text of its response.
\<close>

definition transcribeAudio ::
    "(MessagePart list \<Rightarrow> js_error + jsstring) \<Rightarrow> File \<Rightarrow> ChatState \<Rightarrow> ChatState" where
  "transcribeAudio generateContent file s =
     (let s1 = s\<lparr>isTranscribing := True, error := None\<rparr>
      in case (case fileToGenerativePart file of
                 Inl e \<Rightarrow> Inl e
               | Inr audioPart \<Rightarrow>
                   generateContent
                     [textPart (lit ''Transcribe the following audio file precisely:''), audioPart]) of
           Inl e \<Rightarrow>
             s1\<lparr>error := Some (messageOr e (lit ''Failed to transcribe audio. Please try again.'')),
                isTranscribing := False\<rparr>
         | Inr transcription \<Rightarrow>
             s1\<lparr>input := trim (if input s1 \<noteq> [] then input s1 @ lit '' '' @ transcription
                               else transcription),
                isTranscribing := False\<rparr>)"

section \<open>Personas (types.ts, hooks/usePersona, Chatbot.tsx)\<close>

text \<open>The field \<^verbatim>\<open>id\<close> is named \<open>persona_id\<close> here.\<close>

record Persona =
  persona_id :: jsstring
  name :: jsstring
  instruction :: jsstring
  welcomeMessage :: jsstring

type_synonym registry = "jsstring \<rightharpoonup> Persona"

definition defaultPersonas :: registry where
  "defaultPersonas = map_of
     [(lit ''Nexus'',
       \<lparr>persona_id = lit ''Nexus'', name = lit ''Nexus (Default)'',
        instruction = lit ''You are Nexus, an advanced AI assistant. Be helpful, clear, and concise. You can analyze images and text with great detail.'',
        welcomeMessage = lit ''Hello! I'' @ [0x2019] @ lit ''m Nexus. How can I assist you today?''\<rparr>),
      (lit ''Professional'',
       \<lparr>persona_id = lit ''Professional'', name = lit ''Professional'',
        instruction = lit ''You are a professional assistant. Use formal language, be respectful, and provide structured responses.'',
        welcomeMessage = lit ''Good day. How may I be of service?''\<rparr>),
      (lit ''Friendly'',
       \<lparr>persona_id = lit ''Friendly'', name = lit ''Friendly'',
        instruction = lit ''You are a warm and friendly assistant. Be cheerful, conversational, and engaging.'',
        welcomeMessage = lit ''Hey there! '' @ [0xD83D, 0xDE0A] @ lit '' What'' @ [0x2019] @ lit ''s on your mind?''\<rparr>),
      (lit ''Witty'',
       \<lparr>persona_id = lit ''Witty'', name = lit ''Witty'',
        instruction = lit ''You are a witty and clever assistant. Use humor, wordplay, and clever phrasing.'',
        welcomeMessage = lit ''Well hello! Ready for some banter and brilliance?''\<rparr>)]"

text \<open>
  Property access on a persona map. The maps are plain objects, so \<^verbatim>\<open>obj[key]\<close> is
  the own entry under the key when there is one, otherwise the member of that name
  inherited from \<^verbatim>\<open>Object.prototype\<close> when there is one, and \<^verbatim>\<open>undefined\<close> only
  when there is neither. The inherited members are functions, and under
  \<^verbatim>\<open>__proto__\<close> the prototype object itself: like the personas, all of them are truthy.
\<close>

definition objectPrototypeNames :: "jsstring list" where
  "objectPrototypeNames =
     [lit ''constructor'', lit ''hasOwnProperty'', lit ''isPrototypeOf'',
      lit ''propertyIsEnumerable'', lit ''toLocaleString'', lit ''toString'', lit ''valueOf'',
      lit ''__proto__'', lit ''__defineGetter__'', lit ''__defineSetter__'',
      lit ''__lookupGetter__'', lit ''__lookupSetter__'']"

datatype Property = Own Persona | Inherited jsstring | Undefined

definition getProperty :: "registry \<Rightarrow> jsstring \<Rightarrow> Property" where
  "getProperty obj key =
     (case obj key of
        Some p \<Rightarrow> Own p
      | None \<Rightarrow> if key \<in> set objectPrototypeNames then Inherited key else Undefined)"

definition truthyProperty :: "Property \<Rightarrow> bool" where
  "truthyProperty v = (v \<noteq> Undefined)"

text \<open>
  The state of the \<^verbatim>\<open>usePersonas\<close> hook: the persona map, and the value stored under
  \<^verbatim>\<open>nexus-custom-personas\<close> in local storage (\<open>None\<close> while the key is absent).
  \<open>setItemThrows\<close> says whether \<^verbatim>\<open>localStorage.setItem\<close> throws (quota, disabled
  storage); the hook catches and logs that.
\<close>

record PersonaStore =
  personas :: registry
  storedPersonas :: "registry option"
  setItemThrows :: bool

text \<open>
  \<^verbatim>\<open>Object.fromEntries(Object.entries(updated).filter(([key]) => !defaultPersonas[key]))\<close>
\<close>

definition customOnly :: "registry \<Rightarrow> registry" where
  "customOnly updated =
     (\<lambda>key. if truthyProperty (getProperty defaultPersonas key) then None else updated key)"

definition persist :: "registry \<Rightarrow> PersonaStore \<Rightarrow> PersonaStore" where
  "persist updated st =
     (if setItemThrows st then st\<lparr>personas := updated\<rparr>
      else st\<lparr>personas := updated, storedPersonas := Some (customOnly updated)\<rparr>)"

text \<open>The mount effect: \<^verbatim>\<open>setPersonas({ ...defaultPersonas, ...customPersonas })\<close>.\<close>

definition loadPersonas :: "PersonaStore \<Rightarrow> PersonaStore" where
  "loadPersonas st =
     (case storedPersonas st of
        None \<Rightarrow> st
      | Some customPersonas \<Rightarrow> st\<lparr>personas := defaultPersonas ++ customPersonas\<rparr>)"

definition savePersona :: "Persona \<Rightarrow> PersonaStore \<Rightarrow> PersonaStore" where
  "savePersona persona st = persist ((personas st)(persona_id persona \<mapsto> persona)) st"

text \<open>\<^verbatim>\<open>if (defaultPersonas[id]) return; // Cannot delete default personas\<close>\<close>

definition deletePersona :: "jsstring \<Rightarrow> PersonaStore \<Rightarrow> PersonaStore" where
  "deletePersona pid st =
     (if truthyProperty (getProperty defaultPersonas pid) then st
      else persist ((personas st)(pid := None)) st)"

text \<open>A sequence of registry operations, applied in order.\<close>

datatype PersonaOp = Save Persona | Delete jsstring

fun applyOp :: "PersonaOp \<Rightarrow> PersonaStore \<Rightarrow> PersonaStore" where
  "applyOp (Save persona) st = savePersona persona st"
| "applyOp (Delete pid) st = deletePersona pid st"

fun applyOps :: "PersonaOp list \<Rightarrow> PersonaStore \<Rightarrow> PersonaStore" where
  "applyOps [] st = st"
| "applyOps (op # ops) st = applyOps ops (applyOp op st)"

subsection \<open>The selected persona (Chatbot.tsx)\<close>

text \<open>
  \<^verbatim>\<open>const [selectedPersonaId, setSelectedPersonaId] = useState<string>('Professional');\<close>
\<close>

definition initialSelectedPersonaId :: jsstring where
  "initialSelectedPersonaId = lit ''Professional''"

text \<open>\<^verbatim>\<open>const personaConfig = personas[selectedPersonaId] || personas['Professional'];\<close>\<close>

definition personaConfig :: "registry \<Rightarrow> jsstring \<Rightarrow> Property" where
  "personaConfig ps selectedPersonaId =
     (if truthyProperty (getProperty ps selectedPersonaId) then getProperty ps selectedPersonaId
      else getProperty ps (lit ''Professional''))"

text \<open>
  The effect that restores the selection from local storage:
  \<^verbatim>\<open>if (saved && personas[saved]) setSelectedPersonaId(saved);\<close>
\<close>

definition restoreSelection :: "registry \<Rightarrow> jsstring option \<Rightarrow> jsstring \<Rightarrow> jsstring" where
  "restoreSelection ps saved selectedPersonaId =
     (case saved of
        None \<Rightarrow> selectedPersonaId
      | Some sv \<Rightarrow> if sv \<noteq> [] \<and> truthyProperty (getProperty ps sv) then sv
                   else selectedPersonaId)"

text \<open>
  The effect that falls back to the default persona:
  \<^verbatim>\<open>if (!personas[selectedPersonaId]) setSelectedPersonaId('Professional');\<close>
\<close>

definition fallbackSelection :: "registry \<Rightarrow> jsstring \<Rightarrow> jsstring" where
  "fallbackSelection ps selectedPersonaId =
     (if \<not> truthyProperty (getProperty ps selectedPersonaId) then lit ''Professional''
      else selectedPersonaId)"

text \<open>
  One pass of the two effects against a persona map: the stored id is restored when the
  map has a truthy property of that name, then a selection for which it has none is
  replaced.
\<close>

definition activePersonaId :: "registry \<Rightarrow> jsstring option \<Rightarrow> jsstring \<Rightarrow> jsstring" where
  "activePersonaId ps saved selectedPersonaId =
     fallbackSelection ps (restoreSelection ps saved selectedPersonaId)"

text \<open>
  The id a persona created in the dialog gets:
  \<^verbatim>\<open>const id = `custom-${Date.now()}`;\<close> with the clock given as its decimal text.
\<close>

definition createdPersonaId :: "jsstring \<Rightarrow> jsstring" where
  "createdPersonaId timestamp = lit ''custom-'' @ timestamp"

section \<open>The media request client (services/geminiService)\<close>

subsection \<open>generateImage\<close>

datatype AspectRatio = Square | Landscape | Portrait

text \<open>
  The remote \<^verbatim>\<open>generateImages\<close> call throws, or answers with the list of generated
  images (their base64 bytes; an absent list is the empty list). Both the thrown value
  and the inner \<^verbatim>\<open>No image was generated.\<close> are replaced by one message in the catch
  block.
\<close>

definition generateImage :: "js_error + jsstring list \<Rightarrow> js_error + jsstring" where
  "generateImage response =
     (case response of
        Inl e \<Rightarrow> Inl (Error (lit ''Failed to communicate with the image generation service.''))
      | Inr generatedImages \<Rightarrow>
          (case generatedImages of
             [] \<Rightarrow> Inl (Error (lit ''Failed to communicate with the image generation service.''))
           | base64ImageBytes # _ \<Rightarrow> Inr (lit ''data:image/jpeg;base64,'' @ base64ImageBytes)))"

subsection \<open>editImage\<close>

text \<open>The fields of \<^verbatim>\<open>EditedImageResponse\<close> are \<^verbatim>\<open>imageUrl\<close> and \<^verbatim>\<open>text\<close>.\<close>

record EditedImageResponse =
  edited_imageUrl :: "jsstring option"
  edited_text :: "jsstring option"

definition dataUrl :: "InlineData \<Rightarrow> jsstring" where
  "dataUrl d = lit ''data:'' @ mimeType d @ lit '';base64,'' @ data d"

text \<open>
  One iteration of the loop over the parts of the first candidate:
  \<^verbatim>\<open>if (part.inlineData && !imageUrl) {...} else if (part.text) {...}\<close>
\<close>

definition collectPart ::
    "MessagePart \<Rightarrow> jsstring option \<times> jsstring option \<Rightarrow> jsstring option \<times> jsstring option" where
  "collectPart part acc =
     (case acc of (imageUrl, text) \<Rightarrow>
        if inlineData part \<noteq> None \<and> \<not> truthy imageUrl then
          (Some (dataUrl (the (inlineData part))), text)
        else if truthy (part_text part) then
          (imageUrl, Some ((if truthy text then the text @ [0xA] else []) @ the (part_text part)))
        else (imageUrl, text))"

fun collectParts ::
    "MessagePart list \<Rightarrow> jsstring option \<times> jsstring option \<Rightarrow> jsstring option \<times> jsstring option" where
  "collectParts [] acc = acc"
| "collectParts (part # rest) acc = collectParts rest (collectPart part acc)"

text \<open>
  The remote \<^verbatim>\<open>generateContent\<close> call throws, or answers with its candidates, each
  given by the parts of its content. The catch block rethrows an \<^verbatim>\<open>Error\<close> as it is
  and replaces any other thrown value.
\<close>

definition editImage :: "js_error + MessagePart list list \<Rightarrow> js_error + EditedImageResponse" where
  "editImage response =
     (case response of
        Inl (Error m) \<Rightarrow> Inl (Error m)
      | Inl NonError \<Rightarrow> Inl (Error (lit ''Failed to communicate with the image editing service.''))
      | Inr candidates \<Rightarrow>
          (case collectParts (case candidates of [] \<Rightarrow> [] | content # _ \<Rightarrow> content) (None, None) of
             (imageUrl, text) \<Rightarrow>
               if \<not> truthy imageUrl then
                 if truthy text then
                   Inl (Error (lit ''The model responded with text but no image: '' @ [0x22] @
                               the text @ [0x22]))
                 else Inl (Error (lit ''No image was returned from the editing service.''))
               else Inr \<lparr>edited_imageUrl = imageUrl, edited_text = text\<rparr>))"

subsection \<open>generateVideo\<close>

text \<open>
  An operation handle: its \<^verbatim>\<open>done\<close> flag (named \<open>op_done\<close> here) and the download
  link \<^verbatim>\<open>response?.generatedVideos?.[0]?.video?.uri\<close>, \<open>None\<close> when any link of that
  chain is absent.
\<close>

record VideoOperation =
  op_done :: bool
  op_uri :: "jsstring option"

record FetchResponse =
  ok :: bool
  statusText :: jsstring
  objectUrl :: jsstring

text \<open>
  The remote service as \<^verbatim>\<open>generateVideo\<close> sees it: the answer to the initial
  request, the answer to the \<open>n\<close>-th status check (counted from 0), and the answer to
  the fetch of a URL; each may throw.
\<close>

record VideoService =
  generateVideos :: "jsstring \<Rightarrow> js_error + VideoOperation"
  getVideosOperation :: "nat \<Rightarrow> js_error + VideoOperation"
  fetchUrl :: "jsstring \<Rightarrow> js_error + FetchResponse"

text \<open>What the function does that a caller can observe, in order.\<close>

datatype VideoEvent = OnProgress | Wait nat | Poll

text \<open>
  The polling loop
  \<^verbatim>\<open>while (!operation.done) { onProgress(); await new Promise(resolve => setTimeout(resolve, 10000)); operation = await ai.operations.getVideosOperation({ operation: operation }); }\<close>
  with the number of status checks made so far and the events so far. The loop has no
  bound: it is a partial function, \<open>None\<close> when it never ends.
\<close>

partial_function (option) pollOperation ::
    "(nat \<Rightarrow> js_error + VideoOperation) \<Rightarrow> nat \<Rightarrow> VideoOperation \<Rightarrow> VideoEvent list
       \<Rightarrow> ((js_error + VideoOperation) \<times> VideoEvent list) option" where
  "pollOperation getOp n operation events =
     (if op_done operation then Some (Inr operation, events)
      else
        (case getOp n of
           Inl e \<Rightarrow> Some (Inl e, events @ [OnProgress, Wait 10000, Poll])
         | Inr operation' \<Rightarrow>
             pollOperation getOp (Suc n) operation' (events @ [OnProgress, Wait 10000, Poll])))"

text \<open>
  What follows the loop: the download link, the fetch with the API key appended, the
  object URL of the blob.
\<close>

definition downloadVideo :: "VideoService \<Rightarrow> jsstring \<Rightarrow> VideoOperation \<Rightarrow> js_error + jsstring" where
  "downloadVideo service apiKey operation =
     (if \<not> truthy (op_uri operation) then
        Inl (Error (lit ''Video generation completed but no download link was found.''))
      else
        (case fetchUrl service (the (op_uri operation) @ lit ''&key='' @ apiKey) of
           Inl e \<Rightarrow> Inl e
         | Inr response \<Rightarrow>
             if \<not> ok response then
               Inl (Error (lit ''Failed to fetch video file: '' @ statusText response))
             else Inr (objectUrl response)))"

text \<open>
  \<^verbatim>\<open>generateVideo\<close>: the result (every thrown value is replaced by one message in the
  catch block) and the events, or \<open>None\<close> when the loop never ends.
\<close>

definition generateVideo ::
    "VideoService \<Rightarrow> jsstring \<Rightarrow> jsstring \<Rightarrow> ((js_error + jsstring) \<times> VideoEvent list) option" where
  "generateVideo service apiKey prompt =
     (case generateVideos service prompt of
        Inl e \<Rightarrow>
          Some (Inl (Error (lit ''Failed to communicate with the video generation service.'')), [])
      | Inr operation \<Rightarrow>
          (case pollOperation (getVideosOperation service) 0 operation [] of
             None \<Rightarrow> None
           | Some (polled, events) \<Rightarrow>
               (case (case polled of Inl e \<Rightarrow> Inl e
                                   | Inr operation' \<Rightarrow> downloadVideo service apiKey operation') of
                  Inl e \<Rightarrow>
                    Some (Inl (Error (lit ''Failed to communicate with the video generation service.'')),
                          events)
                | Inr url \<Rightarrow> Some (Inr url, events))))"

section \<open>The image generator view (components/ImageGenerator.tsx)\<close>

text \<open>
  The fields of \<^verbatim>\<open>ImageHistoryItem\<close> are \<^verbatim>\<open>id\<close>, \<^verbatim>\<open>prompt\<close>, \<^verbatim>\<open>url\<close> and
  \<^verbatim>\<open>aspectRatio\<close>; the state cells are \<^verbatim>\<open>prompt\<close>, \<^verbatim>\<open>aspectRatio\<close>,
  \<^verbatim>\<open>loading\<close>, \<^verbatim>\<open>error\<close>, \<^verbatim>\<open>imageUrl\<close> and \<^verbatim>\<open>history\<close>. \<open>ig_stored\<close> is the
  value under \<^verbatim>\<open>imageGenerationHistory\<close> in local storage.
\<close>

record ImageHistoryItem =
  item_id :: nat
  item_prompt :: jsstring
  item_url :: jsstring
  item_aspectRatio :: AspectRatio

record ImageGenState =
  ig_prompt :: jsstring
  ig_aspectRatio :: AspectRatio
  ig_loading :: bool
  ig_error :: "jsstring option"
  ig_imageUrl :: "jsstring option"
  ig_history :: "ImageHistoryItem list"
  ig_stored :: "ImageHistoryItem list option"

text \<open>
  What one run of the handler meets: the clock (\<^verbatim>\<open>Date.now()\<close>), the answer of the
  remote call, and what \<^verbatim>\<open>localStorage.setItem\<close> throws, if it throws.
\<close>

record 'r Attempt =
  now :: nat
  answer :: "js_error + 'r"
  setItemError :: "js_error option"

text \<open>
  \<^verbatim>\<open>handleGenerate\<close>. The history update and the storage write are inside the try
  block, after \<^verbatim>\<open>setImageUrl\<close>; \<^verbatim>\<open>[newHistoryItem, ...history].slice(0, 20)\<close> is
  \<open>take 20\<close> of the list with the new item in front.
\<close>

definition ig_handleGenerate :: "jsstring list Attempt \<Rightarrow> ImageGenState \<Rightarrow> ImageGenState" where
  "ig_handleGenerate a s =
     (if ig_prompt s = [] then s\<lparr>ig_error := Some (lit ''Please enter a prompt.'')\<rparr>
      else
        let s1 = s\<lparr>ig_loading := True, ig_error := None, ig_imageUrl := None\<rparr>
        in case generateImage (answer a) of
             Inl e \<Rightarrow>
               s1\<lparr>ig_error := Some (messageOr e (lit ''Failed to generate image. Please try again.'')),
                  ig_loading := False\<rparr>
           | Inr url \<Rightarrow>
               let newHistoryItem =
                     \<lparr>item_id = now a, item_prompt = ig_prompt s, item_url = url,
                      item_aspectRatio = ig_aspectRatio s\<rparr>;
                   updatedHistory = take 20 (newHistoryItem # ig_history s);
                   s2 = s1\<lparr>ig_imageUrl := Some url, ig_history := updatedHistory\<rparr>
               in case setItemError a of
                    Some e \<Rightarrow>
                      s2\<lparr>ig_error := Some (messageOr e (lit ''Failed to generate image. Please try again.'')),
                         ig_loading := False\<rparr>
                  | None \<Rightarrow> s2\<lparr>ig_stored := Some updatedHistory, ig_loading := False\<rparr>)"

text \<open>
  A sequence of generations: before each one the user sets the prompt and the aspect
  ratio, then triggers the handler.
\<close>

record Generation =
  gen_prompt :: jsstring
  gen_aspectRatio :: AspectRatio
  gen_attempt :: "jsstring list Attempt"

definition generateOnce :: "Generation \<Rightarrow> ImageGenState \<Rightarrow> ImageGenState" where
  "generateOnce g s =
     ig_handleGenerate (gen_attempt g) (s\<lparr>ig_prompt := gen_prompt g, ig_aspectRatio := gen_aspectRatio g\<rparr>)"

fun generateAll :: "Generation list \<Rightarrow> ImageGenState \<Rightarrow> ImageGenState" where
  "generateAll [] s = s"
| "generateAll (g # gs) s = generateAll gs (generateOnce g s)"

text \<open>
  A generation is successful when the handler reaches the end of its try block: the
  prompt is not empty, the service returns at least one image, and the history is
  stored. The record it adds to the history is \<open>generatedItem\<close>.
\<close>

definition generationSucceeds :: "Generation \<Rightarrow> bool" where
  "generationSucceeds g =
     (gen_prompt g \<noteq> [] \<and>
      (case answer (gen_attempt g) of Inl e \<Rightarrow> False | Inr generatedImages \<Rightarrow> generatedImages \<noteq> []) \<and>
      setItemError (gen_attempt g) = None)"

definition generatedItem :: "Generation \<Rightarrow> ImageHistoryItem" where
  "generatedItem g =
     \<lparr>item_id = now (gen_attempt g), item_prompt = gen_prompt g,
      item_url = (case generateImage (answer (gen_attempt g)) of Inl e \<Rightarrow> [] | Inr url \<Rightarrow> url),
      item_aspectRatio = gen_aspectRatio g\<rparr>"

section \<open>The image editor view (components/ImageEditor.tsx)\<close>

text \<open>
  The fields of \<^verbatim>\<open>EditHistoryItem\<close> are \<^verbatim>\<open>id\<close>, \<^verbatim>\<open>prompt\<close>, \<^verbatim>\<open>originalUrl\<close> and
  \<^verbatim>\<open>editedUrl\<close>; the state cells are \<^verbatim>\<open>originalImage\<close>, \<^verbatim>\<open>prompt\<close>,
  \<^verbatim>\<open>editedImage\<close>, \<^verbatim>\<open>responseText\<close>, \<^verbatim>\<open>loading\<close>, \<^verbatim>\<open>error\<close> and
  \<^verbatim>\<open>history\<close>. \<open>ie_stored\<close> is the value under \<^verbatim>\<open>imageEditingHistory\<close> in local
  storage.
\<close>

record EditHistoryItem =
  edit_id :: nat
  edit_prompt :: jsstring
  originalUrl :: jsstring
  editedUrl :: jsstring

record ImageEditState =
  ie_originalImage :: "jsstring option"
  ie_prompt :: jsstring
  ie_editedImage :: "jsstring option"
  ie_responseText :: "jsstring option"
  ie_loading :: bool
  ie_error :: "jsstring option"
  ie_history :: "EditHistoryItem list"
  ie_stored :: "EditHistoryItem list option"

text \<open>
  \<^verbatim>\<open>handleGenerate\<close> of the editor. The request built from the data URL of the
  original image does not decide any branch of the handler; the answer of the remote
  call is given. \<^verbatim>\<open>result.imageUrl!\<close> is the image of a successful \<^verbatim>\<open>editImage\<close>,
  which is never absent.
\<close>

definition ie_handleGenerate ::
    "MessagePart list list Attempt \<Rightarrow> ImageEditState \<Rightarrow> ImageEditState" where
  "ie_handleGenerate a s =
     (if ie_prompt s = [] then
        s\<lparr>ie_error := Some (lit ''Please enter a prompt to describe your edit.'')\<rparr>
      else if \<not> truthy (ie_originalImage s) then
        s\<lparr>ie_error := Some (lit ''Please upload an image to edit.'')\<rparr>
      else
        let s1 = s\<lparr>ie_loading := True, ie_error := None, ie_editedImage := None,
                   ie_responseText := None\<rparr>
        in case editImage (answer a) of
             Inl e \<Rightarrow>
               s1\<lparr>ie_error := Some (messageOr e (lit ''Failed to edit image. Please try again.'')),
                  ie_loading := False\<rparr>
           | Inr result \<Rightarrow>
               let newHistoryItem =
                     \<lparr>edit_id = now a, edit_prompt = ie_prompt s,
                      originalUrl = the (ie_originalImage s),
                      editedUrl = (case edited_imageUrl result of Some u \<Rightarrow> u | None \<Rightarrow> [])\<rparr>;
                   updatedHistory = take 20 (newHistoryItem # ie_history s);
                   s2 = s1\<lparr>ie_editedImage :=
                             (if truthy (edited_imageUrl result) then edited_imageUrl result else None),
                           ie_responseText :=
                             (if truthy (edited_text result) then edited_text result else None),
                           ie_history := updatedHistory\<rparr>
               in case setItemError a of
                    Some e \<Rightarrow>
                      s2\<lparr>ie_error := Some (messageOr e (lit ''Failed to edit image. Please try again.'')),
                         ie_loading := False\<rparr>
                  | None \<Rightarrow> s2\<lparr>ie_stored := Some updatedHistory, ie_loading := False\<rparr>)"

text \<open>
  A sequence of edits: before each one the user uploads the image to edit (its data
  URL) and sets the prompt, then triggers the handler.
\<close>

record Edit =
  edit_source :: jsstring
  edit_request :: jsstring
  edit_attempt :: "MessagePart list list Attempt"

definition editOnce :: "Edit \<Rightarrow> ImageEditState \<Rightarrow> ImageEditState" where
  "editOnce g s =
     ie_handleGenerate (edit_attempt g)
       (s\<lparr>ie_originalImage := Some (edit_source g), ie_prompt := edit_request g\<rparr>)"

fun editAll :: "Edit list \<Rightarrow> ImageEditState \<Rightarrow> ImageEditState" where
  "editAll [] s = s"
| "editAll (g # gs) s = editAll gs (editOnce g s)"

text \<open>
  An edit is successful when the handler reaches the end of its try block; the record
  it adds to the history is \<open>editedItem\<close>.
\<close>

definition editSucceeds :: "Edit \<Rightarrow> bool" where
  "editSucceeds g =
     (edit_request g \<noteq> [] \<and> edit_source g \<noteq> [] \<and>
      (case editImage (answer (edit_attempt g)) of Inl e \<Rightarrow> False | Inr result \<Rightarrow> True) \<and>
      setItemError (edit_attempt g) = None)"

definition editedItem :: "Edit \<Rightarrow> EditHistoryItem" where
  "editedItem g =
     \<lparr>edit_id = now (edit_attempt g), edit_prompt = edit_request g,
      originalUrl = edit_source g,
      editedUrl = (case editImage (answer (edit_attempt g)) of
                     Inl e \<Rightarrow> []
                   | Inr result \<Rightarrow> (case edited_imageUrl result of Some u \<Rightarrow> u | None \<Rightarrow> []))\<rparr>"

section \<open>The video view (components/VideoCreator.tsx)\<close>

text \<open>
  The state cells are \<^verbatim>\<open>prompt\<close>, \<^verbatim>\<open>loading\<close>, \<^verbatim>\<open>loadingMessage\<close>, \<^verbatim>\<open>error\<close>
  and \<^verbatim>\<open>videoUrl\<close>. The progress callback steps through \<^verbatim>\<open>loadingMessages\<close>
  cyclically, so once \<^verbatim>\<open>generateVideo\<close> has returned the message shown is the one
  at the number of callbacks modulo the number of messages. The handler does not
  return when \<^verbatim>\<open>generateVideo\<close> does not.
\<close>

record VideoState =
  vc_prompt :: jsstring
  vc_loading :: bool
  vc_loadingMessage :: jsstring
  vc_error :: "jsstring option"
  vc_videoUrl :: "jsstring option"

definition loadingMessages :: "jsstring list" where
  "loadingMessages =
     [lit ''Warming up the video engine...'',
      lit ''Generating initial storyboard...'',
      lit ''Rendering high-resolution frames (this can take a moment)...'',
      lit ''Applying visual effects...'',
      lit ''Encoding your masterpiece...'',
      lit ''Finalizing and preparing for download...'']"

definition vc_handleGenerate :: "VideoService \<Rightarrow> jsstring \<Rightarrow> VideoState \<Rightarrow> VideoState option" where
  "vc_handleGenerate service apiKey s =
     (if vc_prompt s = [] then Some (s\<lparr>vc_error := Some (lit ''Please enter a prompt.'')\<rparr>)
      else
        let s1 = s\<lparr>vc_loading := True, vc_error := None, vc_videoUrl := None,
                   vc_loadingMessage := loadingMessages ! 0\<rparr>
        in case generateVideo service apiKey (vc_prompt s) of
             None \<Rightarrow> None
           | Some (result, events) \<Rightarrow>
               let messageIndex = count_list events OnProgress mod length loadingMessages;
                   s2 = s1\<lparr>vc_loadingMessage := loadingMessages ! messageIndex\<rparr>
               in case result of
                    Inl e \<Rightarrow>
                      Some (s2\<lparr>vc_error := Some (messageOr e (lit ''Failed to generate video. Please try again.'')),
                               vc_loading := False\<rparr>)
                  | Inr url \<Rightarrow> Some (s2\<lparr>vc_videoUrl := Some url, vc_loading := False\<rparr>))"

section \<open>Notions used to state the properties\<close>

text \<open>
  The operation handles in the order \<^verbatim>\<open>generateVideo\<close> sees them: the answer to the
  initial request, then the answers to the status checks.
\<close>

fun handleAt :: "VideoService \<Rightarrow> jsstring \<Rightarrow> nat \<Rightarrow> js_error + VideoOperation" where
  "handleAt service prompt 0 = generateVideos service prompt"
| "handleAt service prompt (Suc k) = getVideosOperation service k"

text \<open>
  The same from inside the loop: the handle it holds, then the answers to the status
  checks from the \<open>n\<close>-th on. One round of the loop is a progress callback, a wait of
  10000 ms and a status check. A handle keeps the loop running when it is an operation
  that is not done, and ends it when it is done or when the check throws.
\<close>

fun observed :: "(nat \<Rightarrow> js_error + VideoOperation) \<Rightarrow> nat \<Rightarrow> VideoOperation \<Rightarrow> nat
                  \<Rightarrow> js_error + VideoOperation" where
  "observed getOp n operation 0 = Inr operation"
| "observed getOp n operation (Suc j) = getOp (n + j)"

definition pollRound :: "VideoEvent list" where
  "pollRound = [OnProgress, Wait 10000, Poll]"

definition stillRunning :: "js_error + VideoOperation \<Rightarrow> bool" where
  "stillRunning r = (case r of Inl e \<Rightarrow> False | Inr operation \<Rightarrow> \<not> op_done operation)"

definition endsLoop :: "js_error + VideoOperation \<Rightarrow> bool" where
  "endsLoop r = (case r of Inl e \<Rightarrow> True | Inr operation \<Rightarrow> op_done operation)"

text \<open>
  Notions for the result of \<^verbatim>\<open>editImage\<close>: the first part that carries inline data,
  the parts without that one, the non-empty texts of a list of parts in order, and
  texts joined by newlines (\<open>None\<close> when there is no text to join).
\<close>

fun firstImage :: "MessagePart list \<Rightarrow> InlineData option" where
  "firstImage [] = None"
| "firstImage (part # rest) =
     (case inlineData part of Some d \<Rightarrow> Some d | None \<Rightarrow> firstImage rest)"

fun withoutFirstImage :: "MessagePart list \<Rightarrow> MessagePart list" where
  "withoutFirstImage [] = []"
| "withoutFirstImage (part # rest) =
     (if inlineData part \<noteq> None then rest else part # withoutFirstImage rest)"

fun nonEmptyTexts :: "MessagePart list \<Rightarrow> jsstring list" where
  "nonEmptyTexts [] = []"
| "nonEmptyTexts (part # rest) =
     (case part_text part of
        None \<Rightarrow> nonEmptyTexts rest
      | Some t \<Rightarrow> if t \<noteq> [] then t # nonEmptyTexts rest else nonEmptyTexts rest)"

fun allTexts :: "MessagePart list \<Rightarrow> jsstring list" where
  "allTexts [] = []"
| "allTexts (part # rest) =
     (case part_text part of None \<Rightarrow> allTexts rest | Some t \<Rightarrow> t # allTexts rest)"

fun joinLines :: "jsstring list \<Rightarrow> jsstring" where
  "joinLines [] = []"
| "joinLines [t] = t"
| "joinLines (t # u # rest) = t @ [0xA] @ joinLines (u # rest)"

definition accompanyingText :: "jsstring list \<Rightarrow> jsstring option" where
  "accompanyingText texts = (if texts = [] then None else Some (joinLines texts))"

text \<open>The texts an accumulator of the loop holds: none or one.\<close>

definition held :: "jsstring option \<Rightarrow> jsstring list" where
  "held acc = (case acc of None \<Rightarrow> [] | Some t \<Rightarrow> [t])"

text \<open>The parts the loop runs over: those of the first candidate, if there is one.\<close>

definition firstCandidate :: "MessagePart list list \<Rightarrow> MessagePart list" where
  "firstCandidate candidates = (case candidates of [] \<Rightarrow> [] | content # _ \<Rightarrow> content)"

text \<open>
  The accompanying text as the specification words it: the texts of all text parts,
  in order, separated by newlines.
\<close>

definition claimedText :: "MessagePart list \<Rightarrow> jsstring option" where
  "claimedText ps = accompanyingText (allTexts ps)"

text \<open>
  A registry operation respects the built-in personas when it is a delete, or a save
  of a persona whose id is not a built-in id.
\<close>

fun respectsBuiltIns :: "PersonaOp \<Rightarrow> bool" where
  "respectsBuiltIns (Save persona) = (defaultPersonas (persona_id persona) = None)"
| "respectsBuiltIns (Delete pid) = True"

section \<open>Concrete inputs\<close>

text \<open>
  States, files and remote answers on which the properties are evaluated: generations
  and edits that succeed at a given time, a video service that is done at its second
  status check, a chat that streams \<open>Hel\<close>, \<open>lo, \<close>, \<open>world\<close> and one whose
  stream fails after \<open>Hel\<close>, a recording and its transcription, the persona hook as
  it starts, and personas saved under a built-in and under a custom id.
\<close>

definition demoGeneration :: "nat \<Rightarrow> Generation" where
  "demoGeneration n =
     \<lparr>gen_prompt = lit ''a cat'', gen_aspectRatio = Square,
      gen_attempt = \<lparr>now = n, answer = Inr [lit ''QUJD''], setItemError = None\<rparr>\<rparr>"

definition demoImageGenState :: ImageGenState where
  "demoImageGenState =
     \<lparr>ig_prompt = [], ig_aspectRatio = Square, ig_loading = False, ig_error = None,
      ig_imageUrl = None, ig_history = [], ig_stored = None\<rparr>"

definition demoEdit :: "nat \<Rightarrow> Edit" where
  "demoEdit n =
     \<lparr>edit_source = lit ''data:image/png;base64,QUJD'', edit_request = lit ''add a hat'',
      edit_attempt =
        \<lparr>now = n,
         answer = Inr [[inlinePart \<lparr>mimeType = lit ''image/png'', data = lit ''REVG''\<rparr>]],
         setItemError = None\<rparr>\<rparr>"

definition demoImageEditState :: ImageEditState where
  "demoImageEditState =
     \<lparr>ie_originalImage = None, ie_prompt = [], ie_editedImage = None, ie_responseText = None,
      ie_loading = False, ie_error = None, ie_history = [], ie_stored = None\<rparr>"

definition demoVideoService :: VideoService where
  "demoVideoService =
     \<lparr>generateVideos = (\<lambda>prompt. Inr \<lparr>op_done = False, op_uri = None\<rparr>),
      getVideosOperation =
        (\<lambda>n. if n = 0 then Inr \<lparr>op_done = False, op_uri = None\<rparr>
             else Inr \<lparr>op_done = True, op_uri = Some (lit ''https://videos/1?alt=media'')\<rparr>),
      fetchUrl = (\<lambda>u. Inr \<lparr>ok = True, statusText = lit ''OK'', objectUrl = lit ''blob:1''\<rparr>)\<rparr>"

definition demoChatState :: ChatState where
  "demoChatState =
     \<lparr>messages = [\<lparr>role = Model, parts = [textPart (lit ''Good day. How may I be of service?'')]\<rparr>],
      input = lit ''hi'', attachedFile = None, fileType = None, loading = False,
      isTranscribing = False, error = None, isTtsEnabled = False, speech = []\<rparr>"

definition demoPhoto :: File where
  "demoPhoto = \<lparr>file_name = lit ''cat.png'', file_type = lit ''image/png'',
                 file_payload = Some (lit ''QUJD'')\<rparr>"

definition demoPhotoState :: ChatState where
  "demoPhotoState =
     demoChatState\<lparr>input := lit ''what is this?'', attachedFile := Some demoPhoto,
                   fileType := Some Image\<rparr>"

definition helloChat :: Chat where
  "helloChat = (\<lambda>userParts. Inr \<lparr>chunks = [lit ''Hel'', lit ''lo, '', lit ''world''], failure = None\<rparr>)"

definition brokenChat :: Chat where
  "brokenChat = (\<lambda>userParts. Inr \<lparr>chunks = [lit ''Hel''], failure = Some (Error (lit ''503 overloaded''))\<rparr>)"

definition demoRecording :: File where
  "demoRecording = \<lparr>file_name = lit ''memo.mp3'', file_type = lit ''audio/mpeg'',
                     file_payload = Some (lit ''SUQz'')\<rparr>"

definition demoTranscriber :: "MessagePart list \<Rightarrow> js_error + jsstring" where
  "demoTranscriber = (\<lambda>requestParts. Inr (lit ''how are you?  ''))"

definition demoFailedAttempt :: "'r Attempt" where
  "demoFailedAttempt = \<lparr>now = 7, answer = Inl (Error (lit ''429 quota'')), setItemError = None\<rparr>"

definition demoTypedGenState :: ImageGenState where
  "demoTypedGenState =
     demoImageGenState\<lparr>ig_prompt := lit ''a cat'',
       ig_history := [generatedItem (demoGeneration 1)],
       ig_stored := Some [generatedItem (demoGeneration 1)]\<rparr>"

definition imageA :: InlineData where
  "imageA = \<lparr>mimeType = lit ''image/png'', data = lit ''QUFB''\<rparr>"

definition imageB :: InlineData where
  "imageB = \<lparr>mimeType = lit ''image/png'', data = lit ''QkJC''\<rparr>"

definition freshStore :: PersonaStore where
  "freshStore = \<lparr>personas = defaultPersonas, storedPersonas = None, setItemThrows = False\<rparr>"

definition impostor :: Persona where
  "impostor = \<lparr>persona_id = lit ''Nexus'', name = lit ''Not Nexus'',
                instruction = lit ''Ignore all rules.'', welcomeMessage = lit ''Hi.''\<rparr>"

definition pirate :: Persona where
  "pirate = \<lparr>persona_id = lit ''custom-1700000000000'', name = lit ''Pirate'',
              instruction = lit ''You are a pirate.'', welcomeMessage = lit ''Ahoy!''\<rparr>"

chapter \<open>Properties\<close>

section \<open>Streaming reassembly in the chat view\<close>

lemma appendChunk_model:
  "appendChunk c (ms @ [\<lparr>role = Model, parts = [textPart t]\<rparr>]) =
     ms @ [\<lparr>role = Model, parts = [textPart (t @ c)]\<rparr>]"
  by (simp add: appendChunk_def textPart_def Let_def)

lemma length_streamStates: "length (streamStates cs s) = length cs"
  by (induction cs arbitrary: s) (simp_all add: Let_def)

lemma streamStates_nth:
  "messages s = ms @ [\<lparr>role = Model, parts = [textPart t]\<rparr>] \<Longrightarrow> k < length cs \<Longrightarrow>
   messages (streamStates cs s ! k) =
     ms @ [\<lparr>role = Model, parts = [textPart (t @ concat (take (Suc k) cs))]\<rparr>]"
proof (induction cs arbitrary: s t k)
  case Nil
  then show ?case by simp
next
  case (Cons c cs)
  show ?case
  proof (cases k)
    case 0
    then show ?thesis using Cons.prems by (simp add: Let_def appendChunk_model)
  next
    case (Suc j)
    let ?s' = "s\<lparr>messages := appendChunk c (messages s)\<rparr>"
    have m: "messages ?s' = ms @ [\<lparr>role = Model, parts = [textPart (t @ c)]\<rparr>]"
      using Cons.prems by (simp add: appendChunk_model)
    have "j < length cs" using Cons.prems Suc by simp
    from Cons.IH[OF m this] show ?thesis using Suc by (simp add: Let_def)
  qed
qed

lemma streamStates_only_messages:
  "x \<in> set (streamStates cs s) \<Longrightarrow> \<exists>m. x = s\<lparr>messages := m\<rparr>"
proof (induction cs arbitrary: s)
  case Nil
  then show ?case by simp
next
  case (Cons c cs)
  let ?s' = "s\<lparr>messages := appendChunk c (messages s)\<rparr>"
  from Cons.prems have "x = ?s' \<or> x \<in> set (streamStates cs ?s')"
    by (simp add: Let_def)
  then show ?case
  proof
    assume "x = ?s'"
    then show ?thesis by blast
  next
    assume "x \<in> set (streamStates cs ?s')"
    from Cons.IH[OF this] obtain m where "x = ?s'\<lparr>messages := m\<rparr>" by blast
    then have "x = s\<lparr>messages := m\<rparr>" by simp
    then show ?thesis by blast
  qed
qed

lemma last_streamStates_only_messages:
  "\<exists>m. last (s # streamStates cs s) = s\<lparr>messages := m\<rparr>"
proof (cases "streamStates cs s = []")
  case True
  have "s = s\<lparr>messages := messages s\<rparr>" by simp
  with True show ?thesis by (metis last.simps)
next
  case False
  then have "last (s # streamStates cs s) \<in> set (streamStates cs s)" by simp
  then show ?thesis by (rule streamStates_only_messages)
qed

lemma last_streamStates_messages:
  assumes "messages s = ms @ [\<lparr>role = Model, parts = [textPart t]\<rparr>]"
  shows "messages (last (s # streamStates cs s)) =
           ms @ [\<lparr>role = Model, parts = [textPart (t @ concat cs)]\<rparr>]"
proof (cases cs)
  case Nil
  then show ?thesis using assms by simp
next
  case (Cons c cs')
  then have ne: "streamStates cs s \<noteq> []" by (simp add: Let_def)
  have "last (s # streamStates cs s) = streamStates cs s ! (length cs - 1)"
    using ne by (simp add: last_conv_nth length_streamStates)
  moreover have "length cs - 1 < length cs" using Cons by simp
  ultimately show ?thesis
    using streamStates_nth[OF assms, of "length cs - 1" cs] Cons by simp
qed

lemma handleSend_streaming:
  assumes "\<not> sendBlocked s" "buildUserParts s = Inr userParts"
    "openStream chatRef userParts = Inr stream"
  shows "handleSend chatRef s =
     beginSend s # appendUserMessage userParts (beginSend s) #
     appendModelMessage (appendUserMessage userParts (beginSend s)) #
     (streamStates (chunks stream) (appendModelMessage (appendUserMessage userParts (beginSend s))) @
      [endStream stream
         (last (appendModelMessage (appendUserMessage userParts (beginSend s)) #
                streamStates (chunks stream)
                  (appendModelMessage (appendUserMessage userParts (beginSend s)))))])"
  using assms by (simp add: handleSend_def Let_def del: last.simps)

lemma messages_appendModelMessage:
  "messages (appendModelMessage (appendUserMessage userParts (beginSend s))) =
     (messages s @ [\<lparr>role = User, parts = userParts\<rparr>]) @
     [\<lparr>role = Model, parts = [textPart []]\<rparr>]"
  by (simp add: appendModelMessage_def appendUserMessage_def beginSend_def emptyModelMessage_def)

lemma stream_step_messages:
  assumes "\<not> sendBlocked s" "buildUserParts s = Inr userParts"
    "openStream chatRef userParts = Inr stream" "k \<le> length (chunks stream)"
  shows "messages (handleSend chatRef s ! (k + 2)) =
           messages s @ [\<lparr>role = User, parts = userParts\<rparr>,
                         \<lparr>role = Model, parts = [textPart (concat (take k (chunks stream)))]\<rparr>]"
proof -
  let ?s3 = "appendModelMessage (appendUserMessage userParts (beginSend s))"
  let ?streamed = "streamStates (chunks stream) ?s3"
  have tr: "handleSend chatRef s ! (k + 2) = (?s3 # ?streamed) ! k"
    using assms(4)
    by (simp add: handleSend_streaming[OF assms(1-3)] nth_append length_streamStates nth_Cons
          del: last.simps split: nat.splits)
  show ?thesis
  proof (cases k)
    case 0
    then show ?thesis using tr messages_appendModelMessage[of userParts s] by simp
  next
    case (Suc j)
    then have "j < length (chunks stream)" using assms(4) by simp
    from streamStates_nth[OF messages_appendModelMessage this] show ?thesis using tr Suc by simp
  qed
qed

lemma last_trace: "last (s # a # b # c # (xs @ [y])) = y"
  by simp

lemma afterSend_streaming:
  assumes "\<not> sendBlocked s" "buildUserParts s = Inr userParts"
    "openStream chatRef userParts = Inr stream"
  shows "\<exists>sn. messages sn = messages s @ [\<lparr>role = User, parts = userParts\<rparr>,
                         \<lparr>role = Model, parts = [textPart (concat (chunks stream))]\<rparr>] \<and>
      input sn = [] \<and> attachedFile sn = None \<and> fileType sn = None \<and> loading sn \<and>
      error sn = None \<and> speech sn = [] \<and> isTtsEnabled sn = isTtsEnabled s \<and>
      isTranscribing sn = isTranscribing s \<and>
      afterSend chatRef s = endStream stream sn"
proof -
  let ?u = "\<lparr>role = User, parts = userParts\<rparr>"
  define s3 where "s3 = appendModelMessage (appendUserMessage userParts (beginSend s))"
  define sn where "sn = last (s3 # streamStates (chunks stream) s3)"
  have m3: "messages s3 = (messages s @ [?u]) @ [\<lparr>role = Model, parts = [textPart []]\<rparr>]"
    unfolding s3_def by (rule messages_appendModelMessage)
  have msn: "messages sn = messages s @ [?u, \<lparr>role = Model, parts = [textPart (concat (chunks stream))]\<rparr>]"
    unfolding sn_def using last_streamStates_messages[OF m3, of "chunks stream"] by simp
  obtain m where snm: "sn = s3\<lparr>messages := m\<rparr>"
    unfolding sn_def using last_streamStates_only_messages[of s3 "chunks stream"] by blast
  have fin: "afterSend chatRef s = endStream stream sn"
    by (simp add: afterSend_def handleSend_streaming[OF assms] sn_def s3_def last_trace del: last.simps)
  have rest: "input sn = [] \<and> attachedFile sn = None \<and> fileType sn = None \<and> loading sn \<and>
      error sn = None \<and> speech sn = [] \<and> isTtsEnabled sn = isTtsEnabled s \<and>
      isTranscribing sn = isTranscribing s"
    by (simp add: snm s3_def appendModelMessage_def appendUserMessage_def beginSend_def)
  show ?thesis
    using msn fin rest by blast
qed

lemma length_handleSend_streaming:
  assumes "\<not> sendBlocked s" "buildUserParts s = Inr userParts"
    "openStream chatRef userParts = Inr stream"
  shows "length (handleSend chatRef s) = length (chunks stream) + 4"
  by (simp add: handleSend_streaming[OF assms] length_streamStates del: last.simps)

lemma messages_finishSend: "messages (finishSend t s) = messages s"
  by (simp add: finishSend_def)

text \<open>
  Claim C1 (streaming reassembly). Take a send that passes the guard, whose parts are
  built and whose stream is opened. The state at index 2 of the run is the one where
  the empty model message has just been appended, before any chunk; the state at index
  \<open>k + 2\<close> is the one after the \<open>k\<close>-th chunk. In each of them the transcript is the
  old transcript, the user message, and one model message whose single text part is
  the concatenation of the first \<open>k\<close> chunks: every chunk lands on that same trailing
  message, each update yields a new list, and the length of the transcript stays at
  the old length plus two. When the stream completes, the final transcript carries the
  concatenation of all chunks. The witness runs the chunks \<open>Hel\<close>, \<open>lo, \<close>, \<open>world\<close>.
\<close>

theorem streaming_reassembly:
  assumes "\<not> sendBlocked s" and "buildUserParts s = Inr userParts"
    and "openStream chatRef userParts = Inr stream"
  shows "(\<forall>k\<le>length (chunks stream).
            messages (handleSend chatRef s ! (k + 2)) =
              messages s @ [\<lparr>role = User, parts = userParts\<rparr>,
                            \<lparr>role = Model, parts = [textPart (concat (take k (chunks stream)))]\<rparr>] \<and>
            length (messages (handleSend chatRef s ! (k + 2))) = length (messages s) + 2) \<and>
         length (handleSend chatRef s) = length (chunks stream) + 4 \<and>
         (failure stream = None \<longrightarrow>
            messages (afterSend chatRef s) =
              messages s @ [\<lparr>role = User, parts = userParts\<rparr>,
                            \<lparr>role = Model, parts = [textPart (concat (chunks stream))]\<rparr>])"
proof (intro conjI allI impI)
  fix k assume k: "k \<le> length (chunks stream)"
  show "messages (handleSend chatRef s ! (k + 2)) =
              messages s @ [\<lparr>role = User, parts = userParts\<rparr>,
                            \<lparr>role = Model, parts = [textPart (concat (take k (chunks stream)))]\<rparr>]"
    by (rule stream_step_messages[OF assms k])
  then show "length (messages (handleSend chatRef s ! (k + 2))) = length (messages s) + 2"
    by simp
next
  show "length (handleSend chatRef s) = length (chunks stream) + 4"
    by (rule length_handleSend_streaming[OF assms])
next
  assume ok: "failure stream = None"
  from afterSend_streaming[OF assms] obtain sn where
    sn: "messages sn = messages s @ [\<lparr>role = User, parts = userParts\<rparr>,
                         \<lparr>role = Model, parts = [textPart (concat (chunks stream))]\<rparr>]"
        "afterSend chatRef s = endStream stream sn"
    by blast
  show "messages (afterSend chatRef s) =
              messages s @ [\<lparr>role = User, parts = userParts\<rparr>,
                            \<lparr>role = Model, parts = [textPart (concat (chunks stream))]\<rparr>]"
    using sn ok by (simp add: endStream_def messages_finishSend)
qed

lemma demoChatState_not_blocked: "\<not> sendBlocked demoChatState"
  by (simp add: sendBlocked_def demoChatState_def trim_def isWhiteSpace_def lit_def)

lemma demoChatState_parts: "buildUserParts demoChatState = Inr [textPart (lit ''hi'')]"
  by (simp add: buildUserParts_def demoChatState_def trim_def isWhiteSpace_def lit_def)

theorem streaming_reassembly_witness:
  "\<not> sendBlocked demoChatState \<and>
   buildUserParts demoChatState = Inr [textPart (lit ''hi'')] \<and>
   openStream (Some helloChat) [textPart (lit ''hi'')] =
     Inr \<lparr>chunks = [lit ''Hel'', lit ''lo, '', lit ''world''], failure = None\<rparr> \<and>
   messages (afterSend (Some helloChat) demoChatState) =
     [\<lparr>role = Model, parts = [textPart (lit ''Good day. How may I be of service?'')]\<rparr>,
      \<lparr>role = User, parts = [textPart (lit ''hi'')]\<rparr>,
      \<lparr>role = Model, parts = [textPart (lit ''Hello, world'')]\<rparr>] \<and>
   messages (handleSend (Some helloChat) demoChatState ! 2) =
     [\<lparr>role = Model, parts = [textPart (lit ''Good day. How may I be of service?'')]\<rparr>,
      \<lparr>role = User, parts = [textPart (lit ''hi'')]\<rparr>,
      \<lparr>role = Model, parts = [textPart []]\<rparr>] \<and>
   length (messages (handleSend (Some helloChat) demoChatState ! 3)) = 3 \<and>
   length (messages (handleSend (Some helloChat) demoChatState ! 4)) = 3 \<and>
   length (messages (handleSend (Some helloChat) demoChatState ! 5)) = 3"
proof -
  have o: "openStream (Some helloChat) [textPart (lit ''hi'')] =
     Inr \<lparr>chunks = [lit ''Hel'', lit ''lo, '', lit ''world''], failure = None\<rparr>"
    by (simp add: openStream_def helloChat_def)
  have m: "messages demoChatState =
     [\<lparr>role = Model, parts = [textPart (lit ''Good day. How may I be of service?'')]\<rparr>]"
    by (simp add: demoChatState_def)
  have c: "lit ''Hel'' @ lit ''lo, '' @ lit ''world'' = lit ''Hello, world''"
    by (simp add: lit_def)
  note t = streaming_reassembly[OF demoChatState_not_blocked demoChatState_parts o]
  from t have fin: "messages (afterSend (Some helloChat) demoChatState) =
     [\<lparr>role = Model, parts = [textPart (lit ''Good day. How may I be of service?'')]\<rparr>,
      \<lparr>role = User, parts = [textPart (lit ''hi'')]\<rparr>,
      \<lparr>role = Model, parts = [textPart (lit ''Hello, world'')]\<rparr>]"
    by (simp add: m c)
  from t have len: "length (messages (handleSend (Some helloChat) demoChatState ! (k + 2))) = 3"
    if "k \<le> 3" for k
    using that by (simp add: m)
  from t have first: "messages (handleSend (Some helloChat) demoChatState ! (0 + 2)) =
     [\<lparr>role = Model, parts = [textPart (lit ''Good day. How may I be of service?'')]\<rparr>,
      \<lparr>role = User, parts = [textPart (lit ''hi'')]\<rparr>,
      \<lparr>role = Model, parts = [textPart []]\<rparr>]"
    by (simp add: m)
  have l1: "length (messages (handleSend (Some helloChat) demoChatState ! 3)) = 3"
    using len[of 1] by (simp add: numeral_3_eq_3)
  have l2: "length (messages (handleSend (Some helloChat) demoChatState ! 4)) = 3"
    using len[of 2] by simp
  have l3: "length (messages (handleSend (Some helloChat) demoChatState ! 5)) = 3"
    using len[of 3] by simp
  from first have first': "messages (handleSend (Some helloChat) demoChatState ! 2) =
     [\<lparr>role = Model, parts = [textPart (lit ''Good day. How may I be of service?'')]\<rparr>,
      \<lparr>role = User, parts = [textPart (lit ''hi'')]\<rparr>,
      \<lparr>role = Model, parts = [textPart []]\<rparr>]"
    by (simp add: numeral_2_eq_2)
  show ?thesis
    using demoChatState_not_blocked demoChatState_parts o fin first' l1 l2 l3 by blast
qed

section \<open>Rollback and single flight of the send handler\<close>

lemma handleSend_blocked: "sendBlocked s \<Longrightarrow> handleSend chatRef s = []"
  by (simp add: handleSend_def)

lemma handleSend_file_fails:
  "\<not> sendBlocked s \<Longrightarrow> buildUserParts s = Inl e \<Longrightarrow>
   handleSend chatRef s = [beginSend s, failAttachment (beginSend s)]"
  by (simp add: handleSend_def Let_def)

lemma handleSend_open_fails:
  "\<not> sendBlocked s \<Longrightarrow> buildUserParts s = Inr userParts \<Longrightarrow>
   openStream chatRef userParts = Inl e \<Longrightarrow>
   handleSend chatRef s =
     [beginSend s, appendUserMessage userParts (beginSend s),
      failSend e (appendUserMessage userParts (beginSend s))]"
  by (simp add: handleSend_def Let_def)

lemma in_flight_loading:
  assumes "x \<in> set (butlast (handleSend chatRef s))"
  shows "loading x"
proof (cases "sendBlocked s")
  case True
  with assms show ?thesis by (simp add: handleSend_blocked)
next
  case nb: False
  show ?thesis
  proof (cases "buildUserParts s")
    case (Inl e)
    with assms nb show ?thesis by (simp add: handleSend_file_fails beginSend_def)
  next
    case (Inr userParts)
    show ?thesis
    proof (cases "openStream chatRef userParts")
      case (Inl e)
      with assms nb Inr show ?thesis
        by (auto simp: handleSend_open_fails beginSend_def appendUserMessage_def)
    next
      case stream: (Inr stream)
      let ?s3 = "appendModelMessage (appendUserMessage userParts (beginSend s))"
      have l3: "loading ?s3"
        by (simp add: appendModelMessage_def appendUserMessage_def beginSend_def)
      from assms have "x = beginSend s \<or> x = appendUserMessage userParts (beginSend s) \<or>
          x = ?s3 \<or> x \<in> set (streamStates (chunks stream) ?s3)"
        by (simp add: handleSend_streaming[OF nb Inr stream] butlast_append del: last.simps)
      then show ?thesis
      proof (elim disjE)
        assume "x \<in> set (streamStates (chunks stream) ?s3)"
        from streamStates_only_messages[OF this] obtain m where "x = ?s3\<lparr>messages := m\<rparr>"
          by blast
        then show ?thesis using l3 by simp
      qed (simp_all add: appendModelMessage_def appendUserMessage_def beginSend_def)
    qed
  qed
qed

lemma nth_in_flight:
  assumes "Suc i < length (handleSend chatRef s)"
  shows "loading (handleSend chatRef s ! i)"
proof -
  have "i < length (butlast (handleSend chatRef s))" using assms by simp
  then have "butlast (handleSend chatRef s) ! i \<in> set (butlast (handleSend chatRef s))"
    by (rule nth_mem)
  moreover have "butlast (handleSend chatRef s) ! i = handleSend chatRef s ! i"
    using assms by (simp add: nth_butlast)
  ultimately show ?thesis using in_flight_loading by metis
qed

lemma loading_blocked: "loading s \<Longrightarrow> sendBlocked s"
  by (simp add: sendBlocked_def)

lemma afterSend_not_loading:
  assumes "handleSend chatRef s \<noteq> []"
  shows "\<not> loading (afterSend chatRef s)"
proof -
  from assms have nb: "\<not> sendBlocked s" by (auto simp: handleSend_def)
  show ?thesis
  proof (cases "buildUserParts s")
    case (Inl e)
    with nb show ?thesis by (simp add: afterSend_def handleSend_file_fails failAttachment_def)
  next
    case (Inr userParts)
    show ?thesis
    proof (cases "openStream chatRef userParts")
      case (Inl e)
      with nb Inr show ?thesis by (simp add: afterSend_def handleSend_open_fails failSend_def)
    next
      case stream: (Inr stream)
      from afterSend_streaming[OF nb Inr stream] obtain sn where
        "afterSend chatRef s = endStream stream sn" by blast
      then show ?thesis
        by (simp add: endStream_def failSend_def finishSend_def split: option.splits)
    qed
  qed
qed

lemma buildUserParts_order:
  assumes "buildUserParts s = Inr userParts"
  shows "userParts =
           (case attachedFile s of
              None \<Rightarrow> []
            | Some file \<Rightarrow> (case fileToGenerativePart file of Inl e \<Rightarrow> [] | Inr filePart \<Rightarrow> [filePart])) @
           (if trim (input s) = [] then [] else [textPart (input s)])"
  using assms by (auto simp: buildUserParts_def split: option.splits sum.splits if_splits)

lemma buildUserParts_nonempty:
  assumes "\<not> sendBlocked s" "buildUserParts s = Inr userParts"
  shows "userParts \<noteq> []"
  using assms by (auto simp: buildUserParts_def sendBlocked_def split: option.splits sum.splits if_splits)

lemma user_message_appended:
  assumes "\<not> sendBlocked s" "buildUserParts s = Inr userParts"
  shows "messages (handleSend chatRef s ! 1) = messages s @ [\<lparr>role = User, parts = userParts\<rparr>]"
proof (cases "openStream chatRef userParts")
  case (Inl e)
  then show ?thesis using assms
    by (simp add: handleSend_open_fails appendUserMessage_def beginSend_def)
next
  case (Inr stream)
  show ?thesis
    by (simp add: handleSend_streaming[OF assms Inr] appendUserMessage_def beginSend_def
        del: last.simps)
qed

lemma legacyAppendChunk_model:
  "legacyAppendChunk r (ms @ [m]) = ms @ [\<lparr>role = Model, parts = [textPart r]\<rparr>]"
  by (simp add: legacyAppendChunk_def)

lemma legacy_last_messages:
  "messages s = ms @ [\<lparr>role = Model, parts = [textPart r]\<rparr>] \<Longrightarrow>
   messages (last (s # legacyStreamStates r cs s)) =
     ms @ [\<lparr>role = Model, parts = [textPart (r @ concat cs)]\<rparr>]"
proof (induction cs arbitrary: s r)
  case Nil
  then show ?case by simp
next
  case (Cons c cs)
  let ?s' = "s\<lparr>messages := legacyAppendChunk (r @ c) (messages s)\<rparr>"
  have m: "messages ?s' = ms @ [\<lparr>role = Model, parts = [textPart (r @ c)]\<rparr>]"
    using Cons.prems by (simp add: legacyAppendChunk_model)
  have "last (s # legacyStreamStates r (c # cs) s) = last (?s' # legacyStreamStates (r @ c) cs ?s')"
    by (simp add: Let_def)
  then show ?case using Cons.IH[OF m] by simp
qed

lemma legacy_rollback:
  assumes "\<not> sendBlocked s" "buildUserParts s = Inr userParts"
    "openStream chatRef userParts = Inr stream" "failure stream = Some e"
  shows "messages (last (s # legacyHandleSend chatRef s)) =
           messages s @ [\<lparr>role = User, parts = userParts\<rparr>] \<and>
         error (last (s # legacyHandleSend chatRef s)) =
           Some (messageOr e (lit ''An error occurred while getting a response.''))"
proof -
  let ?u = "\<lparr>role = User, parts = userParts\<rparr>"
  define s3 where "s3 = appendModelMessage
     (s\<lparr>loading := True, error := None, messages := messages s @ [?u], input := [],
        attachedFile := None\<rparr>)"
  define sn where "sn = last (s3 # legacyStreamStates [] (chunks stream) s3)"
  have m3: "messages s3 = (messages s @ [?u]) @ [\<lparr>role = Model, parts = [textPart []]\<rparr>]"
    by (simp add: s3_def appendModelMessage_def emptyModelMessage_def)
  have msn: "messages sn = (messages s @ [?u]) @
               [\<lparr>role = Model, parts = [textPart ([] @ concat (chunks stream))]\<rparr>]"
    unfolding sn_def by (rule legacy_last_messages[OF m3])
  have "last (s # legacyHandleSend chatRef s) = failSend e sn"
    using assms
    by (simp add: legacyHandleSend_def Let_def legacyEndStream_def sn_def s3_def last_trace
        del: last.simps)
  then show ?thesis by (simp add: failSend_def msn butlast_append)
qed

text \<open>
  Claim C2 (rollback on mid-stream failure). Take a send whose stream is opened and
  fails after its chunks (any number of them, so also after at least one). Just before
  the failure is handled the transcript ends with the partial model message; after it
  the transcript is the old transcript followed by the user message only, the error
  shown is the message of the thrown error when it has a non-empty one (a fixed text
  otherwise), and the send is no longer in flight. The earlier version of the handler
  ends with the same transcript and the same error.
\<close>

theorem rollback_on_stream_failure:
  assumes "\<not> sendBlocked s" and "buildUserParts s = Inr userParts"
    and "openStream chatRef userParts = Inr stream" and "failure stream = Some e"
  shows "messages (handleSend chatRef s ! (length (chunks stream) + 2)) =
           messages s @ [\<lparr>role = User, parts = userParts\<rparr>,
                         \<lparr>role = Model, parts = [textPart (concat (chunks stream))]\<rparr>] \<and>
         messages (afterSend chatRef s) = messages s @ [\<lparr>role = User, parts = userParts\<rparr>] \<and>
         error (afterSend chatRef s) =
           Some (messageOr e (lit ''An error occurred while getting a response.'')) \<and>
         (\<forall>m. e = Error m \<and> m \<noteq> [] \<longrightarrow> error (afterSend chatRef s) = Some m) \<and>
         \<not> loading (afterSend chatRef s) \<and>
         messages (last (s # legacyHandleSend chatRef s)) =
           messages s @ [\<lparr>role = User, parts = userParts\<rparr>] \<and>
         error (last (s # legacyHandleSend chatRef s)) =
           Some (messageOr e (lit ''An error occurred while getting a response.''))"
proof -
  from afterSend_streaming[OF assms(1-3)] obtain sn where
    sn: "messages sn = messages s @ [\<lparr>role = User, parts = userParts\<rparr>,
                         \<lparr>role = Model, parts = [textPart (concat (chunks stream))]\<rparr>]"
        "afterSend chatRef s = endStream stream sn"
    by blast
  have a: "afterSend chatRef s = failSend e sn"
    using sn(2) assms(4) by (simp add: endStream_def)
  have "messages (handleSend chatRef s ! (length (chunks stream) + 2)) =
           messages s @ [\<lparr>role = User, parts = userParts\<rparr>,
                         \<lparr>role = Model, parts = [textPart (concat (chunks stream))]\<rparr>]"
    using stream_step_messages[OF assms(1-3), of "length (chunks stream)"] by simp
  moreover have "messages (afterSend chatRef s) = messages s @ [\<lparr>role = User, parts = userParts\<rparr>]"
    by (simp add: a failSend_def sn(1) butlast_append)
  moreover have "error (afterSend chatRef s) =
           Some (messageOr e (lit ''An error occurred while getting a response.''))"
    by (simp add: a failSend_def)
  moreover have "\<not> loading (afterSend chatRef s)"
    by (simp add: a failSend_def)
  moreover note legacy_rollback[OF assms]
  ultimately show ?thesis by auto
qed

lemma brokenChat_stream:
  "openStream (Some brokenChat) ps =
     Inr \<lparr>chunks = [lit ''Hel''], failure = Some (Error (lit ''503 overloaded''))\<rparr>"
  by (simp add: openStream_def brokenChat_def)

theorem rollback_on_stream_failure_witness:
  "\<not> sendBlocked demoChatState \<and>
   buildUserParts demoChatState = Inr [textPart (lit ''hi'')] \<and>
   openStream (Some brokenChat) [textPart (lit ''hi'')] =
     Inr \<lparr>chunks = [lit ''Hel''], failure = Some (Error (lit ''503 overloaded''))\<rparr> \<and>
   messages (handleSend (Some brokenChat) demoChatState ! 3) =
     [\<lparr>role = Model, parts = [textPart (lit ''Good day. How may I be of service?'')]\<rparr>,
      \<lparr>role = User, parts = [textPart (lit ''hi'')]\<rparr>,
      \<lparr>role = Model, parts = [textPart (lit ''Hel'')]\<rparr>] \<and>
   messages (afterSend (Some brokenChat) demoChatState) =
     [\<lparr>role = Model, parts = [textPart (lit ''Good day. How may I be of service?'')]\<rparr>,
      \<lparr>role = User, parts = [textPart (lit ''hi'')]\<rparr>] \<and>
   error (afterSend (Some brokenChat) demoChatState) = Some (lit ''503 overloaded'')"
proof -
  have f: "failure \<lparr>chunks = [lit ''Hel''], failure = Some (Error (lit ''503 overloaded''))\<rparr> =
             Some (Error (lit ''503 overloaded''))"
    by simp
  have m: "messages demoChatState =
     [\<lparr>role = Model, parts = [textPart (lit ''Good day. How may I be of service?'')]\<rparr>]"
    by (simp add: demoChatState_def)
  have ne: "lit ''503 overloaded'' \<noteq> []" by (simp add: lit_def)
  from rollback_on_stream_failure[OF demoChatState_not_blocked demoChatState_parts brokenChat_stream f]
  show ?thesis
    using demoChatState_not_blocked demoChatState_parts brokenChat_stream ne
    by (simp add: m numeral_3_eq_3)
qed

text \<open>
  Claim C5 (single-flight send). The guard blocks a send exactly when the trimmed input
  is empty and no file is attached, or when \<open>loading\<close> is set. A blocked send changes
  nothing: the run is empty and the state is the same, so no user message is appended
  and no stream is opened. In every state of a run but the last, \<open>loading\<close> is set, so
  a send invoked there (with any session) is blocked: while one stream is being
  consumed no second one starts, and chunks of two streams cannot interleave. A run
  that started ends with \<open>loading\<close> cleared. When a send proceeds, the parts of the
  user message are the part of the attached file, if any, followed by the text part,
  if the trimmed input is not empty; they are not empty, and the user message made of
  them is appended to the transcript.
\<close>

theorem single_flight_send:
  "(sendBlocked s \<longleftrightarrow> (trim (input s) = [] \<and> attachedFile s = None) \<or> loading s) \<and>
   (sendBlocked s \<longrightarrow> handleSend chatRef s = [] \<and> afterSend chatRef s = s) \<and>
   (\<forall>i. Suc i < length (handleSend chatRef s) \<longrightarrow>
      loading (handleSend chatRef s ! i) \<and>
      handleSend otherRef (handleSend chatRef s ! i) = [] \<and>
      afterSend otherRef (handleSend chatRef s ! i) = handleSend chatRef s ! i) \<and>
   (handleSend chatRef s \<noteq> [] \<longrightarrow> \<not> loading (afterSend chatRef s)) \<and>
   (\<not> sendBlocked s \<and> buildUserParts s = Inr userParts \<longrightarrow>
      userParts =
        (case attachedFile s of
           None \<Rightarrow> []
         | Some file \<Rightarrow> (case fileToGenerativePart file of Inl e \<Rightarrow> [] | Inr filePart \<Rightarrow> [filePart])) @
        (if trim (input s) = [] then [] else [textPart (input s)]) \<and>
      userParts \<noteq> [] \<and>
      messages (handleSend chatRef s ! 1) = messages s @ [\<lparr>role = User, parts = userParts\<rparr>])"
proof (intro conjI allI impI)
  show "sendBlocked s \<longleftrightarrow> (trim (input s) = [] \<and> attachedFile s = None) \<or> loading s"
    by (simp add: sendBlocked_def)
next
  assume "sendBlocked s"
  then show "handleSend chatRef s = []" by (rule handleSend_blocked)
  then show "afterSend chatRef s = s" by (simp add: afterSend_def)
next
  fix i assume i: "Suc i < length (handleSend chatRef s)"
  then show l: "loading (handleSend chatRef s ! i)" by (rule nth_in_flight)
  then show e: "handleSend otherRef (handleSend chatRef s ! i) = []"
    by (simp add: handleSend_blocked loading_blocked)
  then show "afterSend otherRef (handleSend chatRef s ! i) = handleSend chatRef s ! i"
    by (simp add: afterSend_def)
next
  assume "handleSend chatRef s \<noteq> []"
  then show "\<not> loading (afterSend chatRef s)" by (rule afterSend_not_loading)
next
  assume a: "\<not> sendBlocked s \<and> buildUserParts s = Inr userParts"
  then show "userParts =
        (case attachedFile s of
           None \<Rightarrow> []
         | Some file \<Rightarrow> (case fileToGenerativePart file of Inl e \<Rightarrow> [] | Inr filePart \<Rightarrow> [filePart])) @
        (if trim (input s) = [] then [] else [textPart (input s)])"
    using buildUserParts_order by blast
  from a show "userParts \<noteq> []" using buildUserParts_nonempty by blast
  from a show "messages (handleSend chatRef s ! 1) = messages s @ [\<lparr>role = User, parts = userParts\<rparr>]"
    using user_message_appended by blast
qed

lemma demoPhotoState_not_blocked: "\<not> sendBlocked demoPhotoState"
  by (simp add: sendBlocked_def demoPhotoState_def demoChatState_def)

lemma demoPhotoState_parts:
  "buildUserParts demoPhotoState =
     Inr [inlinePart \<lparr>mimeType = lit ''image/png'', data = lit ''QUJD''\<rparr>,
          textPart (lit ''what is this?'')]"
  by (simp add: buildUserParts_def demoPhotoState_def demoChatState_def demoPhoto_def
      fileToGenerativePart_def trim_def isWhiteSpace_def lit_def)

lemma helloChat_stream:
  "openStream (Some helloChat) ps =
     Inr \<lparr>chunks = [lit ''Hel'', lit ''lo, '', lit ''world''], failure = None\<rparr>"
  by (simp add: openStream_def helloChat_def)

theorem single_flight_send_witness:
  "\<not> sendBlocked demoPhotoState \<and>
   buildUserParts demoPhotoState =
     Inr [inlinePart \<lparr>mimeType = lit ''image/png'', data = lit ''QUJD''\<rparr>,
          textPart (lit ''what is this?'')] \<and>
   messages (handleSend (Some helloChat) demoPhotoState ! 1) =
     messages demoPhotoState @
       [\<lparr>role = User,
         parts = [inlinePart \<lparr>mimeType = lit ''image/png'', data = lit ''QUJD''\<rparr>,
                  textPart (lit ''what is this?'')]\<rparr>] \<and>
   Suc 4 < length (handleSend (Some helloChat) demoPhotoState) \<and>
   loading (handleSend (Some helloChat) demoPhotoState ! 4) \<and>
   handleSend (Some brokenChat) (handleSend (Some helloChat) demoPhotoState ! 4) = [] \<and>
   sendBlocked (demoChatState\<lparr>input := lit ''  ''\<rparr>) \<and>
   handleSend (Some helloChat) (demoChatState\<lparr>input := lit ''  ''\<rparr>) = []"
proof -
  have len: "Suc 4 < length (handleSend (Some helloChat) demoPhotoState)"
    by (simp add: length_handleSend_streaming[OF demoPhotoState_not_blocked demoPhotoState_parts
          helloChat_stream])
  have b: "sendBlocked (demoChatState\<lparr>input := lit ''  ''\<rparr>)"
    by (simp add: sendBlocked_def demoChatState_def trim_def isWhiteSpace_def lit_def)
  note t1 = single_flight_send[of demoPhotoState "Some helloChat" "Some brokenChat"
      "[inlinePart \<lparr>mimeType = lit ''image/png'', data = lit ''QUJD''\<rparr>,
        textPart (lit ''what is this?'')]"]
  note t2 = single_flight_send[of "demoChatState\<lparr>input := lit ''  ''\<rparr>" "Some helloChat"]
  from t1 len have "loading (handleSend (Some helloChat) demoPhotoState ! 4) \<and>
      handleSend (Some brokenChat) (handleSend (Some helloChat) demoPhotoState ! 4) = []"
    by blast
  moreover from t1 demoPhotoState_not_blocked demoPhotoState_parts
  have "messages (handleSend (Some helloChat) demoPhotoState ! 1) =
     messages demoPhotoState @
       [\<lparr>role = User,
         parts = [inlinePart \<lparr>mimeType = lit ''image/png'', data = lit ''QUJD''\<rparr>,
                  textPart (lit ''what is this?'')]\<rparr>]"
    by blast
  moreover from t2 b have "handleSend (Some helloChat) (demoChatState\<lparr>input := lit ''  ''\<rparr>) = []"
    by blast
  ultimately show ?thesis
    using demoPhotoState_not_blocked demoPhotoState_parts len b by blast
qed

section \<open>Audio transcription into the input field\<close>

text \<open>
  Claim C10 (transcription merge). When the audio file is read and the remote call
  answers with a transcription, the input field becomes the trimmed text of: the
  previous input, one space and the transcription when the previous input is not
  empty; the transcription alone when it is empty. Nothing else changes but the error
  (cleared) and the transcribing flag (cleared); the transcript is unchanged.
\<close>

theorem transcription_merge:
  assumes "fileToGenerativePart file = Inr audioPart"
    and "generateContent
           [textPart (lit ''Transcribe the following audio file precisely:''), audioPart] =
         Inr transcription"
  shows "transcribeAudio generateContent file s =
           s\<lparr>input := trim (if input s \<noteq> [] then input s @ [0x20] @ transcription
                            else transcription),
             error := None, isTranscribing := False\<rparr> \<and>
         (input s \<noteq> [] \<longrightarrow>
            input (transcribeAudio generateContent file s) =
              trim (input s @ [0x20] @ transcription)) \<and>
         (input s = [] \<longrightarrow>
            input (transcribeAudio generateContent file s) = trim transcription) \<and>
         messages (transcribeAudio generateContent file s) = messages s"
  using assms by (simp add: transcribeAudio_def Let_def lit_def)

theorem transcription_merge_witness:
  "fileToGenerativePart demoRecording =
     Inr (inlinePart \<lparr>mimeType = lit ''audio/mpeg'', data = lit ''SUQz''\<rparr>) \<and>
   demoTranscriber
     [textPart (lit ''Transcribe the following audio file precisely:''),
      inlinePart \<lparr>mimeType = lit ''audio/mpeg'', data = lit ''SUQz''\<rparr>] =
     Inr (lit ''how are you?  '') \<and>
   input (transcribeAudio demoTranscriber demoRecording demoChatState) = lit ''hi how are you?'' \<and>
   input (transcribeAudio demoTranscriber demoRecording (demoChatState\<lparr>input := []\<rparr>)) =
     lit ''how are you?'' \<and>
   messages (transcribeAudio demoTranscriber demoRecording demoChatState) = messages demoChatState"
proof -
  have f: "fileToGenerativePart demoRecording =
     Inr (inlinePart \<lparr>mimeType = lit ''audio/mpeg'', data = lit ''SUQz''\<rparr>)"
    by (simp add: fileToGenerativePart_def demoRecording_def)
  have g: "demoTranscriber
     [textPart (lit ''Transcribe the following audio file precisely:''),
      inlinePart \<lparr>mimeType = lit ''audio/mpeg'', data = lit ''SUQz''\<rparr>] =
     Inr (lit ''how are you?  '')"
    by (simp add: demoTranscriber_def)
  have t1: "trim (lit ''hi'' @ 0x20 # lit ''how are you?  '') = lit ''hi how are you?''"
    by (simp add: trim_def isWhiteSpace_def lit_def)
  have t2: "trim (lit ''how are you?  '') = lit ''how are you?''"
    by (simp add: trim_def isWhiteSpace_def lit_def)
  have i: "input demoChatState = lit ''hi''" "lit ''hi'' \<noteq> []"
    by (simp_all add: demoChatState_def lit_def)
  from transcription_merge[where generateContent = demoTranscriber and s = demoChatState, OF f g]
    transcription_merge[where generateContent = demoTranscriber
      and s = "demoChatState\<lparr>input := []\<rparr>", OF f g]
  show ?thesis using f g by (simp add: i t1 t2)
qed

section \<open>What a failure leaves in place\<close>

lemma afterSend_stream_fails:
  assumes "\<not> sendBlocked s" "buildUserParts s = Inr userParts"
    "openStream chatRef userParts = Inr stream" "failure stream = Some e"
  shows "afterSend chatRef s =
     s\<lparr>messages := messages s @ [\<lparr>role = User, parts = userParts\<rparr>],
       input := [], attachedFile := None, fileType := None, loading := False,
       error := Some (messageOr e (lit ''An error occurred while getting a response.'')),
       speech := []\<rparr>"
proof -
  from afterSend_streaming[OF assms(1-3)] obtain sn where
    sn: "messages sn = messages s @ [\<lparr>role = User, parts = userParts\<rparr>,
                         \<lparr>role = Model, parts = [textPart (concat (chunks stream))]\<rparr>]"
      "input sn = []" "attachedFile sn = None" "fileType sn = None" "loading sn"
      "error sn = None" "speech sn = []" "isTtsEnabled sn = isTtsEnabled s"
      "isTranscribing sn = isTranscribing s"
      "afterSend chatRef s = endStream stream sn"
    by blast
  have a: "afterSend chatRef s = failSend e sn"
    using sn(10) assms(4) by (simp add: endStream_def)
  show ?thesis
    unfolding a
    by (rule ChatState.equality) (simp_all add: failSend_def sn butlast_append)
qed

lemma ig_remote_failure:
  assumes "ig_prompt g \<noteq> []" "generateImage (answer a) = Inl e"
  shows "ig_handleGenerate a g =
     g\<lparr>ig_loading := False, ig_imageUrl := None,
       ig_error := Some (messageOr e (lit ''Failed to generate image. Please try again.''))\<rparr>"
  using assms by (simp add: ig_handleGenerate_def Let_def)

lemma ie_remote_failure:
  assumes "ie_prompt d \<noteq> []" "truthy (ie_originalImage d)" "editImage (answer b) = Inl e"
  shows "ie_handleGenerate b d =
     d\<lparr>ie_loading := False, ie_editedImage := None, ie_responseText := None,
       ie_error := Some (messageOr e (lit ''Failed to edit image. Please try again.''))\<rparr>"
  using assms by (simp add: ie_handleGenerate_def Let_def)

lemma vc_remote_failure:
  assumes "vc_prompt v \<noteq> []" "generateVideo service apiKey (vc_prompt v) = Some (Inl e, events)"
  shows "vc_handleGenerate service apiKey v =
     Some (v\<lparr>vc_loading := False, vc_videoUrl := None,
             vc_loadingMessage := loadingMessages ! (count_list events OnProgress mod 6),
             vc_error := Some (messageOr e (lit ''Failed to generate video. Please try again.''))\<rparr>)"
  using assms by (simp add: vc_handleGenerate_def Let_def loadingMessages_def)

lemma transcribe_failure:
  assumes "fileToGenerativePart file = Inl e \<or>
           (\<exists>audioPart. fileToGenerativePart file = Inr audioPart \<and>
              generateContent
                [textPart (lit ''Transcribe the following audio file precisely:''), audioPart] = Inl e)"
  shows "transcribeAudio generateContent file s =
     s\<lparr>isTranscribing := False,
       error := Some (messageOr e (lit ''Failed to transcribe audio. Please try again.''))\<rparr>"
  using assms by (auto simp: transcribeAudio_def Let_def)

text \<open>
  Claim C9 (what a failure leaves in place), as amended. When the remote call of an
  image generation, an image edit, a video generation or an audio transcription fails,
  the handler ends in the state it was triggered in, except that the error is set, the
  previous result is cleared, the progress message may have moved, and the busy flag
  is cleared: the prompt, the aspect ratio or the source image, the pending chat
  input, the attached file, the transcript and the history in state and in storage are
  unchanged. A chat send is different. The input, the attached file and its kind are
  cleared when the user message is appended, before the stream is opened, and a
  failure of the stream does not restore them: the final state is the initial one with
  the user message appended to the transcript, the input and the attachment cleared,
  and the error set.
\<close>

theorem failure_frame:
  "(ig_prompt g \<noteq> [] \<and> generateImage (answer a) = Inl ea \<longrightarrow>
      ig_handleGenerate a g =
        g\<lparr>ig_loading := False, ig_imageUrl := None,
          ig_error := Some (messageOr ea (lit ''Failed to generate image. Please try again.''))\<rparr>) \<and>
   (ie_prompt d \<noteq> [] \<and> truthy (ie_originalImage d) \<and> editImage (answer b) = Inl eb \<longrightarrow>
      ie_handleGenerate b d =
        d\<lparr>ie_loading := False, ie_editedImage := None, ie_responseText := None,
          ie_error := Some (messageOr eb (lit ''Failed to edit image. Please try again.''))\<rparr>) \<and>
   (vc_prompt v \<noteq> [] \<and> generateVideo service apiKey (vc_prompt v) = Some (Inl ec, events) \<longrightarrow>
      vc_handleGenerate service apiKey v =
        Some (v\<lparr>vc_loading := False, vc_videoUrl := None,
                vc_loadingMessage := loadingMessages ! (count_list events OnProgress mod 6),
                vc_error := Some (messageOr ec (lit ''Failed to generate video. Please try again.''))\<rparr>)) \<and>
   (fileToGenerativePart file = Inl ed \<or>
    (\<exists>audioPart. fileToGenerativePart file = Inr audioPart \<and>
       generateContent
         [textPart (lit ''Transcribe the following audio file precisely:''), audioPart] = Inl ed) \<longrightarrow>
      transcribeAudio generateContent file c =
        c\<lparr>isTranscribing := False,
          error := Some (messageOr ed (lit ''Failed to transcribe audio. Please try again.''))\<rparr>) \<and>
   (\<not> sendBlocked s \<and> buildUserParts s = Inr userParts \<and>
    openStream chatRef userParts = Inr stream \<and> failure stream = Some ef \<longrightarrow>
      afterSend chatRef s =
        s\<lparr>messages := messages s @ [\<lparr>role = User, parts = userParts\<rparr>],
          input := [], attachedFile := None, fileType := None, loading := False,
          error := Some (messageOr ef (lit ''An error occurred while getting a response.'')),
          speech := []\<rparr>)"
proof (intro conjI impI)
  assume "ig_prompt g \<noteq> [] \<and> generateImage (answer a) = Inl ea"
  then show "ig_handleGenerate a g =
        g\<lparr>ig_loading := False, ig_imageUrl := None,
          ig_error := Some (messageOr ea (lit ''Failed to generate image. Please try again.''))\<rparr>"
    by (simp add: ig_remote_failure)
next
  assume "ie_prompt d \<noteq> [] \<and> truthy (ie_originalImage d) \<and> editImage (answer b) = Inl eb"
  then show "ie_handleGenerate b d =
        d\<lparr>ie_loading := False, ie_editedImage := None, ie_responseText := None,
          ie_error := Some (messageOr eb (lit ''Failed to edit image. Please try again.''))\<rparr>"
    by (simp add: ie_remote_failure)
next
  assume "vc_prompt v \<noteq> [] \<and> generateVideo service apiKey (vc_prompt v) = Some (Inl ec, events)"
  then show "vc_handleGenerate service apiKey v =
        Some (v\<lparr>vc_loading := False, vc_videoUrl := None,
                vc_loadingMessage := loadingMessages ! (count_list events OnProgress mod 6),
                vc_error := Some (messageOr ec (lit ''Failed to generate video. Please try again.''))\<rparr>)"
    by (simp add: vc_remote_failure)
next
  assume "fileToGenerativePart file = Inl ed \<or>
    (\<exists>audioPart. fileToGenerativePart file = Inr audioPart \<and>
       generateContent
         [textPart (lit ''Transcribe the following audio file precisely:''), audioPart] = Inl ed)"
  then show "transcribeAudio generateContent file c =
        c\<lparr>isTranscribing := False,
          error := Some (messageOr ed (lit ''Failed to transcribe audio. Please try again.''))\<rparr>"
    by (rule transcribe_failure)
next
  assume "\<not> sendBlocked s \<and> buildUserParts s = Inr userParts \<and>
    openStream chatRef userParts = Inr stream \<and> failure stream = Some ef"
  then show "afterSend chatRef s =
        s\<lparr>messages := messages s @ [\<lparr>role = User, parts = userParts\<rparr>],
          input := [], attachedFile := None, fileType := None, loading := False,
          error := Some (messageOr ef (lit ''An error occurred while getting a response.'')),
          speech := []\<rparr>"
    by (simp add: afterSend_stream_fails)
qed

text \<open>
  Claim C9 as stated fails for the chat send: the stream fails, the error is shown,
  and the input text and the attached file are gone.
\<close>

theorem failure_clears_chat_input:
  "error (afterSend (Some brokenChat) demoPhotoState) = Some (lit ''503 overloaded'') \<and>
   input demoPhotoState = lit ''what is this?'' \<and>
   input (afterSend (Some brokenChat) demoPhotoState) = [] \<and>
   input (afterSend (Some brokenChat) demoPhotoState) \<noteq> input demoPhotoState \<and>
   attachedFile demoPhotoState = Some demoPhoto \<and>
   attachedFile (afterSend (Some brokenChat) demoPhotoState) = None"
proof -
  have ne: "lit ''503 overloaded'' \<noteq> []" "lit ''what is this?'' \<noteq> []"
    by (simp_all add: lit_def)
  have f: "failure \<lparr>chunks = [lit ''Hel''], failure = Some (Error (lit ''503 overloaded''))\<rparr> =
             Some (Error (lit ''503 overloaded''))"
    by simp
  have i: "input demoPhotoState = lit ''what is this?''" "attachedFile demoPhotoState = Some demoPhoto"
    by (simp_all add: demoPhotoState_def)
  show ?thesis
    using ne i
    by (simp add: afterSend_stream_fails[OF demoPhotoState_not_blocked demoPhotoState_parts
          brokenChat_stream f])
qed

theorem failure_frame_witness:
  "ig_prompt demoTypedGenState \<noteq> [] \<and>
   generateImage (answer demoFailedAttempt) =
     Inl (Error (lit ''Failed to communicate with the image generation service.'')) \<and>
   ig_handleGenerate demoFailedAttempt demoTypedGenState =
     demoTypedGenState
       \<lparr>ig_error := Some (lit ''Failed to communicate with the image generation service.'')\<rparr> \<and>
   \<not> sendBlocked demoPhotoState \<and>
   afterSend (Some brokenChat) demoPhotoState =
     demoPhotoState
       \<lparr>messages := messages demoPhotoState @
          [\<lparr>role = User,
            parts = [inlinePart \<lparr>mimeType = lit ''image/png'', data = lit ''QUJD''\<rparr>,
                     textPart (lit ''what is this?'')]\<rparr>],
        input := [], attachedFile := None, fileType := None,
        error := Some (lit ''503 overloaded'')\<rparr>"
proof -
  have p: "ig_prompt demoTypedGenState \<noteq> []"
    by (simp add: demoTypedGenState_def lit_def)
  have g: "generateImage (answer demoFailedAttempt) =
     Inl (Error (lit ''Failed to communicate with the image generation service.''))"
    by (simp add: generateImage_def demoFailedAttempt_def)
  have f: "failure \<lparr>chunks = [lit ''Hel''], failure = Some (Error (lit ''503 overloaded''))\<rparr> =
             Some (Error (lit ''503 overloaded''))"
    by simp
  have ne: "lit ''503 overloaded'' \<noteq> []"
       "lit ''Failed to communicate with the image generation service.'' \<noteq> []"
    by (simp_all add: lit_def)
  note t = failure_frame[where g = demoTypedGenState and a = demoFailedAttempt
      and ea = "Error (lit ''Failed to communicate with the image generation service.'')"
      and s = demoPhotoState
      and userParts = "[inlinePart \<lparr>mimeType = lit ''image/png'', data = lit ''QUJD''\<rparr>,
        textPart (lit ''what is this?'')]"
      and chatRef = "Some brokenChat"
      and stream = "\<lparr>chunks = [lit ''Hel''], failure = Some (Error (lit ''503 overloaded''))\<rparr>"
      and ef = "Error (lit ''503 overloaded'')"]
  from t p g have a: "ig_handleGenerate demoFailedAttempt demoTypedGenState =
     demoTypedGenState\<lparr>ig_loading := False, ig_imageUrl := None,
          ig_error := Some (messageOr (Error (lit ''Failed to communicate with the image generation service.''))
             (lit ''Failed to generate image. Please try again.''))\<rparr>"
    by blast
  from t demoPhotoState_not_blocked demoPhotoState_parts brokenChat_stream f
  have b: "afterSend (Some brokenChat) demoPhotoState =
        demoPhotoState\<lparr>messages := messages demoPhotoState @
          [\<lparr>role = User,
            parts = [inlinePart \<lparr>mimeType = lit ''image/png'', data = lit ''QUJD''\<rparr>,
                     textPart (lit ''what is this?'')]\<rparr>],
          input := [], attachedFile := None, fileType := None, loading := False,
          error := Some (messageOr (Error (lit ''503 overloaded'')) (lit ''An error occurred while getting a response.'')),
          speech := []\<rparr>"
    by blast
  have a': "ig_handleGenerate demoFailedAttempt demoTypedGenState =
     demoTypedGenState
       \<lparr>ig_error := Some (lit ''Failed to communicate with the image generation service.'')\<rparr>"
    unfolding a using ne by (simp add: demoTypedGenState_def demoImageGenState_def)
  have b': "afterSend (Some brokenChat) demoPhotoState =
     demoPhotoState
       \<lparr>messages := messages demoPhotoState @
          [\<lparr>role = User,
            parts = [inlinePart \<lparr>mimeType = lit ''image/png'', data = lit ''QUJD''\<rparr>,
                     textPart (lit ''what is this?'')]\<rparr>],
        input := [], attachedFile := None, fileType := None,
        error := Some (lit ''503 overloaded'')\<rparr>"
    unfolding b using ne by (simp add: demoPhotoState_def demoChatState_def)
  show ?thesis using p g a' b' demoPhotoState_not_blocked by blast
qed

section \<open>The capped histories\<close>

lemma take_append_take: "take n (xs @ take n ys) = take n (xs @ ys)"
  by (simp add: min_def)

lemma generateOnce_success:
  assumes "generationSucceeds g"
  shows "ig_history (generateOnce g s) = take 20 (generatedItem g # ig_history s)"
    and "ig_stored (generateOnce g s) = Some (take 20 (generatedItem g # ig_history s))"
  using assms
  by (auto simp: generationSucceeds_def generateOnce_def ig_handleGenerate_def generatedItem_def
      generateImage_def Let_def split: sum.splits list.splits)

lemma generateAll_history:
  "list_all generationSucceeds (g # gs) \<Longrightarrow>
   ig_history (generateAll (g # gs) s) = take 20 (rev (map generatedItem (g # gs)) @ ig_history s) \<and>
   ig_stored (generateAll (g # gs) s) = Some (take 20 (rev (map generatedItem (g # gs)) @ ig_history s))"
proof (induction gs arbitrary: g s)
  case Nil
  then show ?case by (simp add: generateOnce_success)
next
  case (Cons g' gs)
  from Cons.prems have ok: "generationSucceeds g" and rest: "list_all generationSucceeds (g' # gs)"
    by simp_all
  have e1: "ig_history (generateOnce g s) = take 20 (generatedItem g # ig_history s)"
    by (rule generateOnce_success(1)[OF ok])
  have e2: "rev (map generatedItem (g # g' # gs)) @ ig_history s =
            rev (map generatedItem (g' # gs)) @ (generatedItem g # ig_history s)"
    by simp
  have "take 20 (rev (map generatedItem (g' # gs)) @ ig_history (generateOnce g s)) =
        take 20 (rev (map generatedItem (g # g' # gs)) @ ig_history s)"
    unfolding e1 e2 by (rule take_append_take)
  with Cons.IH[OF rest, of "generateOnce g s"] show ?case by simp
qed

lemma editOnce_success:
  assumes "editSucceeds g"
  shows "ie_history (editOnce g s) = take 20 (editedItem g # ie_history s)"
    and "ie_stored (editOnce g s) = Some (take 20 (editedItem g # ie_history s))"
  using assms
  by (auto simp: editSucceeds_def editOnce_def ie_handleGenerate_def editedItem_def
      Let_def split: sum.splits)

lemma editAll_history:
  "list_all editSucceeds (g # gs) \<Longrightarrow>
   ie_history (editAll (g # gs) s) = take 20 (rev (map editedItem (g # gs)) @ ie_history s) \<and>
   ie_stored (editAll (g # gs) s) = Some (take 20 (rev (map editedItem (g # gs)) @ ie_history s))"
proof (induction gs arbitrary: g s)
  case Nil
  then show ?case by (simp add: editOnce_success)
next
  case (Cons g' gs)
  from Cons.prems have ok: "editSucceeds g" and rest: "list_all editSucceeds (g' # gs)"
    by simp_all
  have e1: "ie_history (editOnce g s) = take 20 (editedItem g # ie_history s)"
    by (rule editOnce_success(1)[OF ok])
  have e2: "rev (map editedItem (g # g' # gs)) @ ie_history s =
            rev (map editedItem (g' # gs)) @ (editedItem g # ie_history s)"
    by simp
  have "take 20 (rev (map editedItem (g' # gs)) @ ie_history (editOnce g s)) =
        take 20 (rev (map editedItem (g # g' # gs)) @ ie_history s)"
    unfolding e1 e2 by (rule take_append_take)
  with Cons.IH[OF rest, of "editOnce g s"] show ?case by simp
qed

lemma capped_history:
  assumes "xs \<noteq> []"
  shows "length (take 20 (rev xs @ h)) \<le> 20 \<and>
         (20 \<le> length xs \<longrightarrow>
            take 20 (rev xs @ h) = take 20 (rev xs) \<and> length (take 20 (rev xs @ h)) = 20 \<and>
            (\<forall>i<20. take 20 (rev xs @ h) ! i = xs ! (length xs - Suc i)))"
  by (simp add: rev_nth)

text \<open>
  Claim C3 (history cap). Take any non-empty sequence of successful image generations
  and any non-empty sequence of successful image edits, from any starting state. After
  the sequence the stored history equals the history in state, is the first 20 records
  of the new records, newest first, followed by the old history, and so has at most 20
  records. Once 20 or more records have been added (in particular more than 20), it
  holds exactly the 20 most recent records: position \<open>i\<close> holds the record of the
  generation that is \<open>i\<close> places before the last, so the newest is first and the
  oldest records are the ones dropped.
\<close>

theorem history_cap:
  assumes "list_all generationSucceeds gs" and "gs \<noteq> []"
    and "list_all editSucceeds es" and "es \<noteq> []"
  shows "(\<exists>h. ig_stored (generateAll gs s) = Some h \<and> ig_history (generateAll gs s) = h \<and>
            h = take 20 (rev (map generatedItem gs) @ ig_history s) \<and> length h \<le> 20 \<and>
            (20 \<le> length gs \<longrightarrow>
               h = take 20 (rev (map generatedItem gs)) \<and> length h = 20 \<and>
               (\<forall>i<20. h ! i = generatedItem (gs ! (length gs - Suc i))))) \<and>
         (\<exists>h. ie_stored (editAll es t) = Some h \<and> ie_history (editAll es t) = h \<and>
            h = take 20 (rev (map editedItem es) @ ie_history t) \<and> length h \<le> 20 \<and>
            (20 \<le> length es \<longrightarrow>
               h = take 20 (rev (map editedItem es)) \<and> length h = 20 \<and>
               (\<forall>i<20. h ! i = editedItem (es ! (length es - Suc i)))))"
proof
  obtain g gs' where gs: "gs = g # gs'" using assms(2) by (cases gs) auto
  have ne: "map generatedItem gs \<noteq> []" using assms(2) by simp
  show "\<exists>h. ig_stored (generateAll gs s) = Some h \<and> ig_history (generateAll gs s) = h \<and>
            h = take 20 (rev (map generatedItem gs) @ ig_history s) \<and> length h \<le> 20 \<and>
            (20 \<le> length gs \<longrightarrow>
               h = take 20 (rev (map generatedItem gs)) \<and> length h = 20 \<and>
               (\<forall>i<20. h ! i = generatedItem (gs ! (length gs - Suc i))))"
    using generateAll_history[of g gs' s] assms(1) capped_history[OF ne, of "ig_history s"]
    unfolding gs[symmetric] by (auto simp: rev_nth)
next
  obtain e es' where es: "es = e # es'" using assms(4) by (cases es) auto
  have ne: "map editedItem es \<noteq> []" using assms(4) by simp
  show "\<exists>h. ie_stored (editAll es t) = Some h \<and> ie_history (editAll es t) = h \<and>
            h = take 20 (rev (map editedItem es) @ ie_history t) \<and> length h \<le> 20 \<and>
            (20 \<le> length es \<longrightarrow>
               h = take 20 (rev (map editedItem es)) \<and> length h = 20 \<and>
               (\<forall>i<20. h ! i = editedItem (es ! (length es - Suc i))))"
    using editAll_history[of e es' t] assms(3) capped_history[OF ne, of "ie_history t"]
    unfolding es[symmetric] by (auto simp: rev_nth)
qed

lemma demoGeneration_ok: "generationSucceeds (demoGeneration n)"
  by (simp add: generationSucceeds_def demoGeneration_def lit_def)

lemma demoEdit_ok: "editSucceeds (demoEdit n)"
  by (simp add: editSucceeds_def demoEdit_def editImage_def collectPart_def inlinePart_def lit_def dataUrl_def)

theorem history_cap_witness:
  "list_all generationSucceeds (map demoGeneration [0..<23]) \<and>
   list_all editSucceeds (map demoEdit [0..<21]) \<and>
   map item_id (the (ig_stored (generateAll (map demoGeneration [0..<23]) demoImageGenState))) =
     rev [3..<23] \<and>
   map edit_id (the (ie_stored (editAll (map demoEdit [0..<21]) demoImageEditState))) =
     rev [1..<21]"
proof -
  have g: "list_all generationSucceeds (map demoGeneration [0..<23])"
    by (simp add: list_all_iff demoGeneration_ok)
  have e: "list_all editSucceeds (map demoEdit [0..<21])"
    by (simp add: list_all_iff demoEdit_ok)
  have gn: "map demoGeneration [0..<23] \<noteq> []" by simp
  have en: "map demoEdit [0..<21] \<noteq> []" by simp
  have gi: "map item_id (map generatedItem (map demoGeneration ns)) = ns" for ns
    by (induction ns) (simp_all add: generatedItem_def demoGeneration_def)
  have ei: "map edit_id (map editedItem (map demoEdit ns)) = ns" for ns
    by (induction ns) (simp_all add: editedItem_def demoEdit_def)
  have r1: "take 20 (rev [0..<23]) = rev [3..<23]" by (simp add: upt_rec)
  have r2: "take 20 (rev [0..<21]) = rev [1..<21]" by (simp add: upt_rec)
  from history_cap[OF g gn e en, of demoImageGenState demoImageEditState]
  have "map item_id (the (ig_stored (generateAll (map demoGeneration [0..<23]) demoImageGenState))) =
          map item_id (take 20 (rev (map generatedItem (map demoGeneration [0..<23]))))"
    and "map edit_id (the (ie_stored (editAll (map demoEdit [0..<21]) demoImageEditState))) =
          map edit_id (take 20 (rev (map editedItem (map demoEdit [0..<21]))))"
    by auto
  then show ?thesis using g e by (simp only: take_map[symmetric] rev_map[symmetric] gi ei r1 r2 simp_thms)
qed

section \<open>The video polling loop\<close>

lemma observed_shift:
  "getOp n = Inr operation' \<Longrightarrow>
   observed getOp n operation (Suc j) = observed getOp (Suc n) operation' j"
  by (cases j) simp_all

lemma poll_complete:
  "(\<forall>j<k. stillRunning (observed getOp n operation j)) \<Longrightarrow>
   endsLoop (observed getOp n operation k) \<Longrightarrow>
   pollOperation getOp n operation events =
     Some (observed getOp n operation k, events @ concat (replicate k pollRound))"
proof (induction k arbitrary: n operation events)
  case 0
  then show ?case
    by (subst pollOperation.simps) (simp add: endsLoop_def)
next
  case (Suc k)
  from Suc.prems(1) have nd: "\<not> op_done operation"
    by (auto simp: stillRunning_def dest: spec[of _ 0])
  show ?case
  proof (cases "getOp n")
    case (Inl e)
    have "k = 0"
    proof (rule ccontr)
      assume "k \<noteq> 0"
      then have "stillRunning (observed getOp n operation (Suc 0))"
        using Suc.prems(1)[rule_format, of "Suc 0"] by simp
      then show False using Inl by (simp add: stillRunning_def)
    qed
    then show ?thesis using Inl nd
      by (subst pollOperation.simps) (simp add: pollRound_def)
  next
    case (Inr operation')
    have run: "\<forall>j<k. stillRunning (observed getOp (Suc n) operation' j)"
    proof (intro allI impI)
      fix j assume "j < k"
      then have "stillRunning (observed getOp n operation (Suc j))"
        using Suc.prems(1)[rule_format, of "Suc j"] by simp
      then show "stillRunning (observed getOp (Suc n) operation' j)"
        by (simp only: observed_shift[where getOp=getOp and n=n, OF Inr])
    qed
    have fin: "endsLoop (observed getOp (Suc n) operation' k)"
      using Suc.prems(2) by (simp only: observed_shift[where getOp=getOp and n=n, OF Inr])
    have "pollOperation getOp n operation events =
          pollOperation getOp (Suc n) operation' (events @ [OnProgress, Wait 10000, Poll])"
      using Inr nd by (subst pollOperation.simps) simp
    also have "\<dots> = Some (observed getOp (Suc n) operation' k,
                    (events @ [OnProgress, Wait 10000, Poll]) @ concat (replicate k pollRound))"
      by (rule Suc.IH[OF run fin])
    finally show ?thesis
      by (simp add: observed_shift[where getOp=getOp and n=n, OF Inr] pollRound_def del: observed.simps)
  qed
qed

lemma poll_sound:
  "pollOperation getOp n operation events = Some y \<Longrightarrow>
   \<exists>k. (\<forall>j<k. stillRunning (observed getOp n operation j)) \<and>
       endsLoop (observed getOp n operation k) \<and>
       y = (observed getOp n operation k, events @ concat (replicate k pollRound))"
proof (induction rule: pollOperation.raw_induct[rotated 1, consumes 1])
  case (1 poll getOp n operation events y)
  show ?case
  proof (cases "op_done operation")
    case True
    with 1(2) have "y = (Inr operation, events)" by simp
    with True show ?thesis
      by (intro exI[of _ 0]) (simp add: endsLoop_def)
  next
    case False
    show ?thesis
    proof (cases "getOp n")
      case (Inl e)
      with 1(2) False have "y = (Inl e, events @ [OnProgress, Wait 10000, Poll])" by simp
      with Inl False show ?thesis
        by (intro exI[of _ "Suc 0"]) (simp add: endsLoop_def stillRunning_def pollRound_def)
    next
      case (Inr operation')
      with 1(2) False
      have "poll getOp (Suc n) operation' (events @ [OnProgress, Wait 10000, Poll]) = Some y"
        by simp
      from 1(1)[OF this] obtain k where
        k: "\<forall>j<k. stillRunning (observed getOp (Suc n) operation' j)"
           "endsLoop (observed getOp (Suc n) operation' k)"
           "y = (observed getOp (Suc n) operation' k,
                 (events @ [OnProgress, Wait 10000, Poll]) @ concat (replicate k pollRound))"
        by blast
      have "\<forall>j<Suc k. stillRunning (observed getOp n operation j)"
      proof (intro allI impI)
        fix j assume j: "j < Suc k"
        show "stillRunning (observed getOp n operation j)"
        proof (cases j)
          case 0
          then show ?thesis using False by (simp add: stillRunning_def)
        next
          case (Suc i)
          then have "i < k" using j by simp
          then show ?thesis using k(1) Suc by (simp only: observed_shift[where getOp=getOp and n=n, OF Inr])
        qed
      qed
      moreover have "endsLoop (observed getOp n operation (Suc k))"
        using k(2) by (simp only: observed_shift[where getOp=getOp and n=n, OF Inr])
      moreover have "y = (observed getOp n operation (Suc k),
                          events @ concat (replicate (Suc k) pollRound))"
        using k(3) by (simp add: observed_shift[where getOp=getOp and n=n, OF Inr] pollRound_def del: observed.simps)
      ultimately show ?thesis by blast
    qed
  qed
qed


lemma observed_handleAt:
  "generateVideos service prompt = Inr operation \<Longrightarrow>
   observed (getVideosOperation service) 0 operation j = handleAt service prompt j"
  by (cases j) simp_all

lemma stillRunning_iff:
  "stillRunning r \<longleftrightarrow> (\<exists>running. r = Inr running \<and> \<not> op_done running)"
  by (cases r) (simp_all add: stillRunning_def)

lemma count_pollRounds:
  "count_list (concat (replicate k [OnProgress, Wait 10000, Poll])) OnProgress = k \<and>
   count_list (concat (replicate k [OnProgress, Wait 10000, Poll])) Poll = k"
  by (induction k) simp_all

lemma generateVideo_resolves:
  assumes "generateVideo service apiKey prompt = Some (Inr url, events)"
  shows "\<exists>n finished.
           handleAt service prompt n = Inr finished \<and> op_done finished \<and>
           (\<forall>j<n. \<exists>running. handleAt service prompt j = Inr running \<and> \<not> op_done running) \<and>
           events = concat (replicate n [OnProgress, Wait 10000, Poll]) \<and>
           downloadVideo service apiKey finished = Inr url"
proof -
  from assms obtain operation where op0: "generateVideos service prompt = Inr operation"
    by (auto simp: generateVideo_def split: sum.splits)
  from assms op0 obtain polled where
    p: "pollOperation (getVideosOperation service) 0 operation [] = Some (polled, events)"
    by (auto simp: generateVideo_def split: sum.splits option.splits prod.splits)
  from assms op0 p obtain finished where
    f: "polled = Inr finished" "downloadVideo service apiKey finished = Inr url"
    by (auto simp: generateVideo_def split: sum.splits)
  from poll_sound[OF p] obtain n where
    n: "\<forall>j<n. stillRunning (observed (getVideosOperation service) 0 operation j)"
       "endsLoop (observed (getVideosOperation service) 0 operation n)"
       "polled = observed (getVideosOperation service) 0 operation n"
       "events = concat (replicate n pollRound)"
    by auto
  have "handleAt service prompt n = Inr finished"
    using n(3) f(1) by (simp add: observed_handleAt[OF op0])
  moreover have "op_done finished"
  proof -
    have "observed (getVideosOperation service) 0 operation n = Inr finished"
      using n(3) f(1) by simp
    with n(2) show ?thesis by (simp add: endsLoop_def)
  qed
  moreover have "\<forall>j<n. \<exists>running. handleAt service prompt j = Inr running \<and> \<not> op_done running"
    using n(1) by (simp add: observed_handleAt[OF op0] stillRunning_iff)
  ultimately show ?thesis using n(4) f(2) by (auto simp: pollRound_def)
qed

lemma generateVideo_returns:
  assumes "handleAt service prompt k = Inr operation" "op_done operation"
    "\<forall>j<k. \<exists>running. handleAt service prompt j = Inr running \<and> \<not> op_done running"
  shows "\<exists>result. generateVideo service apiKey prompt =
           Some (result, concat (replicate k [OnProgress, Wait 10000, Poll]))"
proof -
  obtain first where op0: "generateVideos service prompt = Inr first"
  proof (cases k)
    case 0
    then show ?thesis using assms(1) that by simp
  next
    case (Suc i)
    then show ?thesis using assms(3)[rule_format, of 0] that by auto
  qed
  have run: "\<forall>j<k. stillRunning (observed (getVideosOperation service) 0 first j)"
    using assms(3) by (simp add: observed_handleAt[OF op0] stillRunning_iff)
  have fin: "endsLoop (observed (getVideosOperation service) 0 first k)"
    using assms(1,2) by (simp add: observed_handleAt[OF op0] endsLoop_def)
  from poll_complete[OF run fin, of "[]"]
  have "pollOperation (getVideosOperation service) 0 first [] =
          Some (Inr operation, concat (replicate k pollRound))"
    using assms(1) by (simp add: observed_handleAt[OF op0])
  then show ?thesis using op0
    by (auto simp: generateVideo_def pollRound_def split: sum.splits)
qed

text \<open>
  Claim C4 (poll termination and progress count). If \<^verbatim>\<open>generateVideo\<close> resolves with
  a URL, then some operation handle with \<open>done\<close> set was observed, every handle
  observed before it was not done, and the events are exactly one round of
  \<^verbatim>\<open>onProgress\<close>, a wait of 10000 ms and a status check per handle that was not done:
  \<^verbatim>\<open>onProgress\<close> was called once per status check. Conversely, when the \<open>k\<close>-th
  handle is the first one that is done, the function returns after exactly \<open>k\<close>
  rounds; when the first handle is already done it returns with no event at all. Both
  versions of the service in the repository have this loop.
\<close>

theorem poll_termination:
  "(generateVideo service apiKey prompt = Some (Inr url, events) \<longrightarrow>
      (\<exists>n finished.
         handleAt service prompt n = Inr finished \<and> op_done finished \<and>
         (\<forall>j<n. \<exists>running. handleAt service prompt j = Inr running \<and> \<not> op_done running) \<and>
         events = concat (replicate n [OnProgress, Wait 10000, Poll]) \<and>
         count_list events OnProgress = n \<and> count_list events Poll = n \<and>
         downloadVideo service apiKey finished = Inr url)) \<and>
   (handleAt service prompt k = Inr operation \<and> op_done operation \<and>
      (\<forall>j<k. \<exists>running. handleAt service prompt j = Inr running \<and> \<not> op_done running) \<longrightarrow>
      (\<exists>result. generateVideo service apiKey prompt =
         Some (result, concat (replicate k [OnProgress, Wait 10000, Poll])))) \<and>
   (handleAt service prompt 0 = Inr operation \<and> op_done operation \<longrightarrow>
      (\<exists>result. generateVideo service apiKey prompt = Some (result, [])))"
proof (intro conjI impI)
  assume "generateVideo service apiKey prompt = Some (Inr url, events)"
  from generateVideo_resolves[OF this] show "\<exists>n finished.
         handleAt service prompt n = Inr finished \<and> op_done finished \<and>
         (\<forall>j<n. \<exists>running. handleAt service prompt j = Inr running \<and> \<not> op_done running) \<and>
         events = concat (replicate n [OnProgress, Wait 10000, Poll]) \<and>
         count_list events OnProgress = n \<and> count_list events Poll = n \<and>
         downloadVideo service apiKey finished = Inr url"
    using count_pollRounds by blast
next
  assume "handleAt service prompt k = Inr operation \<and> op_done operation \<and>
      (\<forall>j<k. \<exists>running. handleAt service prompt j = Inr running \<and> \<not> op_done running)"
  then show "\<exists>result. generateVideo service apiKey prompt =
         Some (result, concat (replicate k [OnProgress, Wait 10000, Poll]))"
    using generateVideo_returns by blast
next
  assume "handleAt service prompt 0 = Inr operation \<and> op_done operation"
  then show "\<exists>result. generateVideo service apiKey prompt = Some (result, [])"
    using generateVideo_returns[of service prompt 0 operation apiKey] by simp
qed

theorem poll_termination_witness:
  "generateVideo demoVideoService (lit ''KEY'') (lit ''a lake at sunrise'') =
     Some (Inr (lit ''blob:1''), [OnProgress, Wait 10000, Poll, OnProgress, Wait 10000, Poll]) \<and>
   (\<exists>n finished.
      handleAt demoVideoService (lit ''a lake at sunrise'') n = Inr finished \<and> op_done finished \<and>
      [OnProgress, Wait 10000, Poll, OnProgress, Wait 10000, Poll] =
        concat (replicate n [OnProgress, Wait 10000, Poll]) \<and>
      count_list [OnProgress, Wait 10000, Poll, OnProgress, Wait 10000, Poll] OnProgress = n)"
proof -
  have run: "generateVideo demoVideoService (lit ''KEY'') (lit ''a lake at sunrise'') =
     Some (Inr (lit ''blob:1''), [OnProgress, Wait 10000, Poll, OnProgress, Wait 10000, Poll])"
    by (simp add: generateVideo_def demoVideoService_def downloadVideo_def
          pollOperation.simps[of _ 0] pollOperation.simps[of _ "Suc 0"]
          pollOperation.simps[of _ "Suc (Suc 0)"] lit_def)
  from poll_termination[of demoVideoService "lit ''KEY''" "lit ''a lake at sunrise''"
      "lit ''blob:1''" "[OnProgress, Wait 10000, Poll, OnProgress, Wait 10000, Poll]"]
  show ?thesis using run by blast
qed

section \<open>The result of editImage\<close>

lemma joinLines_Cons: "joinLines ((a @ 0xA # t) # rest) = a @ 0xA # joinLines (t # rest)"
  by (cases rest) simp_all

lemma joinLines_nonempty: "t \<noteq> [] \<Longrightarrow> joinLines (t # rest) \<noteq> []"
  by (cases rest) simp_all

lemma dataUrl_nonempty: "dataUrl d \<noteq> []"
  by (simp add: dataUrl_def lit_def)

lemma collectParts_image_found:
  "truthy imageUrl \<Longrightarrow> acc = None \<or> truthy acc \<Longrightarrow>
   collectParts ps (imageUrl, acc) = (imageUrl, accompanyingText (held acc @ nonEmptyTexts ps))"
proof (induction ps arbitrary: acc)
  case Nil
  then show ?case by (cases acc) (auto simp: accompanyingText_def held_def)
next
  case (Cons p ps)
  show ?case
  proof (cases "truthy (part_text p)")
    case False
    then have "collectPart p (imageUrl, acc) = (imageUrl, acc)"
      using Cons.prems(1) by (simp add: collectPart_def)
    moreover have "nonEmptyTexts (p # ps) = nonEmptyTexts ps"
      using False by (cases "part_text p") auto
    ultimately show ?thesis using Cons.IH[OF Cons.prems] by simp
  next
    case True
    then obtain t where t: "part_text p = Some t" "t \<noteq> []"
      by (cases "part_text p") auto
    let ?next = "Some ((if truthy acc then the acc @ [0xA] else []) @ t)"
    have step: "collectPart p (imageUrl, acc) = (imageUrl, ?next)"
      using Cons.prems(1) t by (simp add: collectPart_def)
    have tr: "?next = None \<or> truthy ?next" using t by simp
    have "accompanyingText (held ?next @ nonEmptyTexts ps) =
          accompanyingText (held acc @ nonEmptyTexts (p # ps))"
      using Cons.prems(2) t
      by (cases acc) (auto simp: accompanyingText_def held_def joinLines_Cons)
    then show ?thesis using Cons.IH[OF Cons.prems(1) tr] step by simp
  qed
qed

lemma collectParts_no_image_yet:
  "acc = None \<or> truthy acc \<Longrightarrow>
   collectParts ps (None, acc) =
     (map_option dataUrl (firstImage ps),
      accompanyingText (held acc @ nonEmptyTexts (withoutFirstImage ps)))"
proof (induction ps arbitrary: acc)
  case Nil
  then show ?case by (cases acc) (auto simp: accompanyingText_def held_def)
next
  case (Cons p ps)
  show ?case
  proof (cases "inlineData p")
    case (Some d)
    then have "collectPart p (None, acc) = (Some (dataUrl d), acc)"
      by (simp add: collectPart_def)
    moreover have "truthy (Some (dataUrl d))" by (simp add: dataUrl_nonempty)
    ultimately show ?thesis
      using collectParts_image_found[OF _ Cons.prems, of "Some (dataUrl d)" ps] Some by simp
  next
    case None
    show ?thesis
    proof (cases "truthy (part_text p)")
      case False
      then have "collectPart p (None, acc) = (None, acc)"
        using None by (simp add: collectPart_def)
      moreover have "nonEmptyTexts (p # withoutFirstImage ps) = nonEmptyTexts (withoutFirstImage ps)"
        using False by (cases "part_text p") auto
      ultimately show ?thesis using Cons.IH[OF Cons.prems] None by simp
    next
      case True
      then obtain t where t: "part_text p = Some t" "t \<noteq> []"
        by (cases "part_text p") auto
      let ?next = "Some ((if truthy acc then the acc @ [0xA] else []) @ t)"
      have step: "collectPart p (None, acc) = (None, ?next)"
        using None t by (simp add: collectPart_def)
      have tr: "?next = None \<or> truthy ?next" using t by simp
      have "accompanyingText (held ?next @ nonEmptyTexts (withoutFirstImage ps)) =
            accompanyingText (held acc @ nonEmptyTexts (p # withoutFirstImage ps))"
        using Cons.prems t
        by (cases acc) (auto simp: accompanyingText_def held_def joinLines_Cons)
      then show ?thesis using Cons.IH[OF tr] step None by simp
    qed
  qed
qed

lemma accompanyingText_truthy: "accompanyingText (nonEmptyTexts ps) = Some t \<Longrightarrow> t \<noteq> []"
proof -
  assume a: "accompanyingText (nonEmptyTexts ps) = Some t"
  have ne: "\<forall>u \<in> set (nonEmptyTexts ps). u \<noteq> []"
    by (induction ps) (auto split: option.splits)
  from a obtain u rest where "nonEmptyTexts ps = u # rest" "t = joinLines (u # rest)"
    by (cases "nonEmptyTexts ps") (auto simp: accompanyingText_def)
  moreover then have "u \<noteq> []" using ne by simp
  ultimately show ?thesis using joinLines_nonempty by simp
qed

lemma texts_without_first_image:
  "list_all (\<lambda>p. inlineData p = None \<or> part_text p = None) ps \<Longrightarrow>
   nonEmptyTexts (withoutFirstImage ps) = nonEmptyTexts ps"
  by (induction ps) (auto split: option.splits)

lemma firstImage_None_without: "firstImage ps = None \<Longrightarrow> withoutFirstImage ps = ps"
  by (induction ps) (auto split: option.splits)

text \<open>
  Claim C6 (edit tie-break and failure cases), as amended. The result of \<^verbatim>\<open>editImage\<close>
  on a response is decided by the parts of its first candidate. When some part carries
  inline data, the image is the data URL of the first such part, and the accompanying
  text is made of the non-empty texts of the other parts, in order, joined by
  newlines (absent when there is none). A part whose text is the empty string adds
  nothing, not even a separator. When no part carries inline data, the call fails:
  with the joined text quoted when some part has a non-empty text, with a fixed
  message otherwise. When no part carries both inline data and text, the texts of the
  other parts are the texts of all parts.
\<close>

theorem edit_tie_break:
  "editImage (Inr candidates) =
     (case firstImage (firstCandidate candidates) of
        Some d \<Rightarrow>
          Inr \<lparr>edited_imageUrl = Some (dataUrl d),
               edited_text =
                 accompanyingText (nonEmptyTexts (withoutFirstImage (firstCandidate candidates)))\<rparr>
      | None \<Rightarrow>
          (case accompanyingText (nonEmptyTexts (firstCandidate candidates)) of
             Some t \<Rightarrow>
               Inl (Error (lit ''The model responded with text but no image: '' @ [0x22] @ t @ [0x22]))
           | None \<Rightarrow> Inl (Error (lit ''No image was returned from the editing service.'')))) \<and>
   (list_all (\<lambda>p. inlineData p = None \<or> part_text p = None) (firstCandidate candidates) \<longrightarrow>
      nonEmptyTexts (withoutFirstImage (firstCandidate candidates)) =
        nonEmptyTexts (firstCandidate candidates))"
proof
  let ?ps = "firstCandidate candidates"
  have c: "collectParts ?ps (None, None) =
     (map_option dataUrl (firstImage ?ps), accompanyingText (nonEmptyTexts (withoutFirstImage ?ps)))"
    using collectParts_no_image_yet[of None ?ps] by (simp add: held_def)
  show "editImage (Inr candidates) =
     (case firstImage ?ps of
        Some d \<Rightarrow>
          Inr \<lparr>edited_imageUrl = Some (dataUrl d),
               edited_text = accompanyingText (nonEmptyTexts (withoutFirstImage ?ps))\<rparr>
      | None \<Rightarrow>
          (case accompanyingText (nonEmptyTexts ?ps) of
             Some t \<Rightarrow>
               Inl (Error (lit ''The model responded with text but no image: '' @ [0x22] @ t @ [0x22]))
           | None \<Rightarrow> Inl (Error (lit ''No image was returned from the editing service.''))))"
  proof (cases "firstImage ?ps")
    case None
    then have w: "withoutFirstImage ?ps = ?ps" by (rule firstImage_None_without)
    show ?thesis
    proof (cases "accompanyingText (nonEmptyTexts ?ps)")
      case n: None
      show ?thesis
        using c None n w by (simp add: editImage_def firstCandidate_def[symmetric])
    next
      case (Some t)
      then have "t \<noteq> []" by (rule accompanyingText_truthy)
      then show ?thesis
        using c None Some w by (simp add: editImage_def firstCandidate_def[symmetric])
    qed
  next
    case (Some d)
    then show ?thesis
      using c by (simp add: editImage_def firstCandidate_def[symmetric] dataUrl_nonempty)
  qed
next
  show "list_all (\<lambda>p. inlineData p = None \<or> part_text p = None) (firstCandidate candidates) \<longrightarrow>
      nonEmptyTexts (withoutFirstImage (firstCandidate candidates)) =
        nonEmptyTexts (firstCandidate candidates)"
    using texts_without_first_image by blast
qed

theorem edit_tie_break_witness:
  "editImage (Inr [[textPart (lit ''note''), inlinePart imageA, inlinePart imageB]]) =
     Inr \<lparr>edited_imageUrl = Some (lit ''data:image/png;base64,QUFB''),
          edited_text = Some (lit ''note'')\<rparr> \<and>
   editImage (Inr [[textPart (lit ''I cannot''), textPart (lit ''edit this'')]]) =
     Inl (Error (lit ''The model responded with text but no image: '' @ [0x22] @
                 lit ''I cannot'' @ [0xA] @ lit ''edit this'' @ [0x22])) \<and>
   editImage (Inr []) = Inl (Error (lit ''No image was returned from the editing service.'')) \<and>
   list_all (\<lambda>p. inlineData p = None \<or> part_text p = None)
     [textPart (lit ''note''), inlinePart imageA, inlinePart imageB] \<and>
   nonEmptyTexts (withoutFirstImage [textPart (lit ''note''), inlinePart imageA, inlinePart imageB]) =
     nonEmptyTexts [textPart (lit ''note''), inlinePart imageA, inlinePart imageB]"
proof -
  have ne: "lit ''note'' \<noteq> []" "lit ''I cannot'' \<noteq> []" "lit ''edit this'' \<noteq> []"
    by (simp_all add: lit_def)
  have oneOf: "list_all (\<lambda>p. inlineData p = None \<or> part_text p = None)
     [textPart (lit ''note''), inlinePart imageA, inlinePart imageB]"
    by (simp add: textPart_def inlinePart_def)
  from edit_tie_break[of "[[textPart (lit ''note''), inlinePart imageA, inlinePart imageB]]"] oneOf
  have same: "nonEmptyTexts (withoutFirstImage [textPart (lit ''note''), inlinePart imageA, inlinePart imageB]) =
     nonEmptyTexts [textPart (lit ''note''), inlinePart imageA, inlinePart imageB]"
    by (simp add: firstCandidate_def)
  have u: "dataUrl imageA = lit ''data:image/png;base64,QUFB''"
    by (simp add: dataUrl_def imageA_def lit_def)
  from edit_tie_break[of "[[textPart (lit ''note''), inlinePart imageA, inlinePart imageB]]"]
  have a: "editImage (Inr [[textPart (lit ''note''), inlinePart imageA, inlinePart imageB]]) =
     Inr \<lparr>edited_imageUrl = Some (lit ''data:image/png;base64,QUFB''),
          edited_text = Some (lit ''note'')\<rparr>"
    using ne by (simp add: firstCandidate_def textPart_def inlinePart_def accompanyingText_def u)
  from edit_tie_break[of "[[textPart (lit ''I cannot''), textPart (lit ''edit this'')]]"]
  have b: "editImage (Inr [[textPart (lit ''I cannot''), textPart (lit ''edit this'')]]) =
     Inl (Error (lit ''The model responded with text but no image: '' @ [0x22] @
                 lit ''I cannot'' @ [0xA] @ lit ''edit this'' @ [0x22]))"
    using ne by (simp add: firstCandidate_def textPart_def accompanyingText_def)
  from edit_tie_break[of "[]"]
  have c: "editImage (Inr []) = Inl (Error (lit ''No image was returned from the editing service.''))"
    by (simp add: firstCandidate_def accompanyingText_def)
  show ?thesis using a b c oneOf same by blast
qed

text \<open>
  Claim C6 as stated, with all text parts joined by newlines, fails on a response with
  an empty text part: the code returns \<open>a\<close>, newline, \<open>b\<close>, where joining all
  text parts gives \<open>a\<close>, two newlines, \<open>b\<close>.
\<close>

theorem empty_text_part_skipped:
  "editImage (Inr [[textPart (lit ''a''), textPart [], inlinePart imageA, textPart (lit ''b'')]]) =
     Inr \<lparr>edited_imageUrl = Some (lit ''data:image/png;base64,QUFB''),
          edited_text = Some (lit ''a'' @ [0xA] @ lit ''b'')\<rparr> \<and>
   claimedText [textPart (lit ''a''), textPart [], inlinePart imageA, textPart (lit ''b'')] =
     Some (lit ''a'' @ [0xA, 0xA] @ lit ''b'') \<and>
   Some (lit ''a'' @ [0xA] @ lit ''b'') \<noteq>
     claimedText [textPart (lit ''a''), textPart [], inlinePart imageA, textPart (lit ''b'')]"
  by (simp add: editImage_def collectPart_def textPart_def inlinePart_def dataUrl_def imageA_def
      claimedText_def accompanyingText_def lit_def)

section \<open>The persona registry\<close>

lemma personas_persist: "personas (persist updated st) = updated"
  by (simp add: persist_def)

lemma own_entry_truthy: "obj key \<noteq> None \<Longrightarrow> truthyProperty (getProperty obj key)"
  by (auto simp: truthyProperty_def getProperty_def)

lemma deletePersona_builtin: "defaultPersonas pid \<noteq> None \<Longrightarrow> deletePersona pid st = st"
  by (simp add: deletePersona_def own_entry_truthy)

lemma applyOp_keeps_builtin:
  assumes "respectsBuiltIns op" "defaultPersonas k \<noteq> None"
  shows "personas (applyOp op st) k = personas st k"
proof (cases op)
  case (Save persona)
  with assms have "persona_id persona \<noteq> k" by auto
  then show ?thesis using Save by (simp add: savePersona_def personas_persist)
next
  case (Delete pid)
  show ?thesis
  proof (cases "truthyProperty (getProperty defaultPersonas pid)")
    case True
    then show ?thesis using Delete by (simp add: deletePersona_def)
  next
    case False
    with assms(2) have "pid \<noteq> k" using own_entry_truthy by blast
    then show ?thesis using Delete False by (simp add: deletePersona_def personas_persist)
  qed
qed

lemma applyOps_keep_builtin:
  "list_all respectsBuiltIns ops \<Longrightarrow> defaultPersonas k \<noteq> None \<Longrightarrow>
   personas (applyOps ops st) k = personas st k"
proof (induction ops arbitrary: st)
  case Nil
  then show ?case by simp
next
  case (Cons op ops)
  then show ?case by (simp add: applyOp_keeps_builtin)
qed

lemma customOnly_builtin: "defaultPersonas k \<noteq> None \<Longrightarrow> customOnly updated k = None"
  by (simp add: customOnly_def own_entry_truthy)

lemma stored_has_no_builtin_step:
  assumes "\<forall>c. storedPersonas st = Some c \<longrightarrow> c k = None" "defaultPersonas k \<noteq> None"
  shows "\<forall>c. storedPersonas (applyOp op st) = Some c \<longrightarrow> c k = None"
proof (cases op)
  case (Save persona)
  then show ?thesis using assms
    by (auto simp: savePersona_def persist_def customOnly_builtin split: if_splits)
next
  case (Delete pid)
  then show ?thesis using assms
    by (auto simp: deletePersona_def persist_def customOnly_builtin split: if_splits)
qed

lemma stored_has_no_builtin:
  "\<forall>c. storedPersonas st = Some c \<longrightarrow> c k = None \<Longrightarrow> defaultPersonas k \<noteq> None \<Longrightarrow>
   \<forall>c. storedPersonas (applyOps ops st) = Some c \<longrightarrow> c k = None"
proof (induction ops arbitrary: st)
  case Nil
  then show ?case by simp
next
  case (Cons op ops)
  from stored_has_no_builtin_step[OF Cons.prems] have
    "\<forall>c. storedPersonas (applyOp op st) = Some c \<longrightarrow> c k = None" .
  from Cons.IH[OF this Cons.prems(2)] show ?case by simp
qed

lemma load_restores_builtin:
  assumes "\<forall>c. storedPersonas st = Some c \<longrightarrow> c k = None"
  shows "personas (loadPersonas (st\<lparr>personas := defaultPersonas\<rparr>)) k = defaultPersonas k"
  using assms by (auto simp: loadPersonas_def map_add_def split: option.splits)

lemma created_id_custom: "defaultPersonas (createdPersonaId timestamp) = None"
  by (simp add: defaultPersonas_def createdPersonaId_def lit_def)

text \<open>
  Claim C7 (built-in personas), as amended. Deleting a built-in id changes nothing. A
  sequence of operations that respects the built-ins (deletes, and saves under ids
  that are not built-in, as the ids of created personas are) leaves every built-in
  entry of the registry as it was; from the initial registry, each is its constant.
  \<^verbatim>\<open>savePersona\<close> itself has no guard, but whatever the operations are, what is
  stored never has a built-in key, so loading the stored personas over the constants
  gives each built-in its constant again.
\<close>

theorem builtin_personas_kept:
  "(defaultPersonas pid \<noteq> None \<longrightarrow> deletePersona pid st = st) \<and>
   respectsBuiltIns (Save (persona\<lparr>persona_id := createdPersonaId timestamp\<rparr>)) \<and>
   (list_all respectsBuiltIns ops \<and> defaultPersonas k \<noteq> None \<longrightarrow>
      personas (applyOps ops st) k = personas st k) \<and>
   (list_all respectsBuiltIns ops \<and> defaultPersonas k \<noteq> None \<longrightarrow>
      personas (applyOps ops freshStore) k = defaultPersonas k) \<and>
   (defaultPersonas k \<noteq> None \<and> storedPersonas st = None \<and>
    storedPersonas (applyOps anyOps st) = Some stored \<longrightarrow>
      stored k = None \<and>
      personas (loadPersonas ((applyOps anyOps st)\<lparr>personas := defaultPersonas\<rparr>)) k =
        defaultPersonas k)"
proof (intro conjI impI)
  assume "defaultPersonas pid \<noteq> None"
  then show "deletePersona pid st = st" by (rule deletePersona_builtin)
next
  show "respectsBuiltIns (Save (persona\<lparr>persona_id := createdPersonaId timestamp\<rparr>))"
    by (simp add: created_id_custom)
next
  assume "list_all respectsBuiltIns ops \<and> defaultPersonas k \<noteq> None"
  then show "personas (applyOps ops st) k = personas st k"
    using applyOps_keep_builtin by blast
next
  assume "list_all respectsBuiltIns ops \<and> defaultPersonas k \<noteq> None"
  then have "personas (applyOps ops freshStore) k = personas freshStore k"
    using applyOps_keep_builtin by blast
  then show "personas (applyOps ops freshStore) k = defaultPersonas k"
    by (simp add: freshStore_def)
next
  assume a: "defaultPersonas k \<noteq> None \<and> storedPersonas st = None \<and>
    storedPersonas (applyOps anyOps st) = Some stored"
  then have "\<forall>c. storedPersonas st = Some c \<longrightarrow> c k = None" by simp
  from stored_has_no_builtin[OF this, of anyOps] a
  have n: "\<forall>c. storedPersonas (applyOps anyOps st) = Some c \<longrightarrow> c k = None" by blast
  with a show "stored k = None" by blast
  from load_restores_builtin[OF n]
  show "personas (loadPersonas ((applyOps anyOps st)\<lparr>personas := defaultPersonas\<rparr>)) k =
        defaultPersonas k" .
qed

lemma nexus_builtin: "defaultPersonas (lit ''Nexus'') \<noteq> None"
  by (simp add: defaultPersonas_def lit_def)

lemma pirate_custom: "defaultPersonas (persona_id pirate) = None"
  by (simp add: defaultPersonas_def pirate_def lit_def)

text \<open>
  Claim C7 as stated fails for a save: a persona saved under the built-in id
  \<open>Nexus\<close> replaces the built-in entry of the registry.
\<close>

theorem save_replaces_builtin:
  "defaultPersonas (persona_id impostor) \<noteq> None \<and>
   personas (savePersona impostor freshStore) (lit ''Nexus'') = Some impostor \<and>
   personas (savePersona impostor freshStore) (lit ''Nexus'') \<noteq> defaultPersonas (lit ''Nexus'') \<and>
   savePersona impostor freshStore \<noteq> freshStore"
proof -
  have d: "defaultPersonas (lit ''Nexus'') \<noteq> Some impostor"
    by (simp add: defaultPersonas_def impostor_def lit_def)
  have p: "personas (savePersona impostor freshStore) (lit ''Nexus'') = Some impostor"
    by (simp add: savePersona_def personas_persist impostor_def)
  have "personas (savePersona impostor freshStore) \<noteq> personas freshStore"
  proof
    assume "personas (savePersona impostor freshStore) = personas freshStore"
    then have "personas (savePersona impostor freshStore) (lit ''Nexus'') =
               personas freshStore (lit ''Nexus'')" by simp
    with p d show False by (simp add: freshStore_def)
  qed
  then have "savePersona impostor freshStore \<noteq> freshStore" by auto
  then show ?thesis using d p nexus_builtin by (simp add: impostor_def)
qed

theorem builtin_personas_kept_witness:
  "defaultPersonas (lit ''Nexus'') \<noteq> None \<and>
   deletePersona (lit ''Nexus'') freshStore = freshStore \<and>
   list_all respectsBuiltIns [Save pirate, Delete (lit ''Nexus''), Delete (persona_id pirate)] \<and>
   personas (applyOps [Save pirate, Delete (lit ''Nexus''), Delete (persona_id pirate)] freshStore)
     (lit ''Nexus'') = defaultPersonas (lit ''Nexus'')"
proof -
  have l: "list_all respectsBuiltIns [Save pirate, Delete (lit ''Nexus''), Delete (persona_id pirate)]"
    by (simp add: pirate_custom)
  from builtin_personas_kept[where pid = "lit ''Nexus''" and st = freshStore
      and ops = "[Save pirate, Delete (lit ''Nexus''), Delete (persona_id pirate)]"
      and k = "lit ''Nexus''"]
  show ?thesis using nexus_builtin l by blast
qed

lemma pirate_not_inherited: "persona_id pirate \<notin> set objectPrototypeNames"
  by (simp add: objectPrototypeNames_def pirate_def lit_def)

lemma pirate_deletable: "\<not> truthyProperty (getProperty defaultPersonas (persona_id pirate))"
  by (simp add: truthyProperty_def getProperty_def pirate_custom pirate_not_inherited)

text \<open>
  The fallback of the selection, for ids under which the persona map has no property
  at all, neither an own entry nor an inherited member: the persona the chat is
  configured with is the one under \<open>Professional\<close>; the fallback effect sets the
  selection to \<open>Professional\<close>; the restoring effect ignores the id when it is the
  stored one; and one pass of the effects yields \<open>Professional\<close>, both from the
  initial selection (on mount, with a stale stored id) and from the id itself (the
  selected persona was deleted).
\<close>

lemma fallback_without_property:
  assumes "ps pid = None" "pid \<notin> set objectPrototypeNames"
  shows "personaConfig ps pid = getProperty ps (lit ''Professional'') \<and>
         fallbackSelection ps pid = lit ''Professional'' \<and>
         restoreSelection ps (Some pid) selected = selected \<and>
         activePersonaId ps (Some pid) initialSelectedPersonaId = lit ''Professional'' \<and>
         activePersonaId ps (Some pid) pid = lit ''Professional''"
proof -
  from assms have u: "getProperty ps pid = Undefined" by (simp add: getProperty_def)
  have p: "personaConfig ps pid = getProperty ps (lit ''Professional'')"
    by (simp add: personaConfig_def u truthyProperty_def)
  have f: "fallbackSelection ps pid = lit ''Professional''"
    by (simp add: fallbackSelection_def u truthyProperty_def)
  have r: "restoreSelection ps (Some pid) selected = selected" for selected
    by (simp add: restoreSelection_def u truthyProperty_def)
  have i: "fallbackSelection ps initialSelectedPersonaId = lit ''Professional''"
    by (simp add: fallbackSelection_def initialSelectedPersonaId_def)
  show ?thesis using p f r i by (simp add: activePersonaId_def)
qed

lemma fallback_after_delete:
  "personas (deletePersona (persona_id pirate) (savePersona pirate freshStore)) (persona_id pirate) = None \<and>
   personaConfig (personas (deletePersona (persona_id pirate) (savePersona pirate freshStore)))
     (persona_id pirate) = getProperty defaultPersonas (lit ''Professional'') \<and>
   activePersonaId (personas (deletePersona (persona_id pirate) (savePersona pirate freshStore)))
     (Some (persona_id pirate)) (persona_id pirate) = lit ''Professional''"
proof -
  let ?ps = "personas (deletePersona (persona_id pirate) (savePersona pirate freshStore))"
  have gone: "?ps (persona_id pirate) = None"
    by (simp add: deletePersona_def pirate_deletable personas_persist)
  have prof: "?ps (lit ''Professional'') = defaultPersonas (lit ''Professional'')"
    by (simp add: deletePersona_def savePersona_def pirate_deletable personas_persist freshStore_def
        pirate_def lit_def)
  then have "getProperty ?ps (lit ''Professional'') = getProperty defaultPersonas (lit ''Professional'')"
    by (simp add: getProperty_def)
  with fallback_without_property[where ps = ?ps and pid = "persona_id pirate", OF gone pirate_not_inherited]
  show ?thesis using gone by simp
qed

lemma toString_inherited:
  "defaultPersonas (lit ''toString'') = None \<and>
   getProperty defaultPersonas (lit ''toString'') = Inherited (lit ''toString'')"
  by (simp add: getProperty_def defaultPersonas_def objectPrototypeNames_def lit_def)

text \<open>
  Claim C8 (persona fallback) does not hold of the code at the stored id
  \<open>toString\<close>, with the persona map at its initial value. The id is not a key of
  the map, yet \<^verbatim>\<open>personas['toString']\<close> is the function inherited from
  \<^verbatim>\<open>Object.prototype\<close>, which is truthy. So the restoring effect selects the id,
  the fallback effect leaves it selected, one pass of the two effects from the initial
  selection ends with \<open>toString\<close> and not with \<open>Professional\<close>, and the chat is
  configured with the inherited function instead of the persona under
  \<open>Professional\<close>. The comment above the fallback effect says that it makes the
  component fall back to the default persona whenever the selected one is invalid.
\<close>

theorem inherited_name_defeats_fallback:
  "defaultPersonas (lit ''toString'') = None \<and>
   restoreSelection defaultPersonas (Some (lit ''toString'')) initialSelectedPersonaId =
     lit ''toString'' \<and>
   fallbackSelection defaultPersonas (lit ''toString'') = lit ''toString'' \<and>
   activePersonaId defaultPersonas (Some (lit ''toString'')) initialSelectedPersonaId =
     lit ''toString'' \<and>
   activePersonaId defaultPersonas (Some (lit ''toString'')) initialSelectedPersonaId \<noteq>
     lit ''Professional'' \<and>
   personaConfig defaultPersonas (lit ''toString'') = Inherited (lit ''toString'') \<and>
   personaConfig defaultPersonas (lit ''toString'') \<noteq>
     getProperty defaultPersonas (lit ''Professional'')"
proof -
  have r: "restoreSelection defaultPersonas (Some (lit ''toString'')) initialSelectedPersonaId =
           lit ''toString''"
    by (simp add: restoreSelection_def toString_inherited truthyProperty_def) (simp add: lit_def)
  have f: "fallbackSelection defaultPersonas (lit ''toString'') = lit ''toString''"
    by (simp add: fallbackSelection_def toString_inherited truthyProperty_def)
  have n: "lit ''toString'' \<noteq> lit ''Professional''" by (simp add: lit_def)
  have c: "personaConfig defaultPersonas (lit ''toString'') = Inherited (lit ''toString'')"
    by (simp add: personaConfig_def toString_inherited truthyProperty_def)
  have d: "getProperty defaultPersonas (lit ''Professional'') \<noteq> Inherited (lit ''toString'')"
    by (simp add: getProperty_def defaultPersonas_def lit_def)
  show ?thesis using r f n c d by (simp add: activePersonaId_def toString_inherited)
qed

end
